theory Spec2Isabelle
  imports Main "HOL-Library.Word"
begin

section \<open>Dynamic-quantisation multi-head attention: the orchestration layer\<close>

text \<open>
  A shallow embedding of \<^verbatim>\<open>kernels/dynamic_quant_mha.cpp\<close>: the descriptor validation
  \<^verbatim>\<open>dynamic_quant_mha_kd_t::init\<close>, the kernel's constructor, \<^verbatim>\<open>get_workspace_size\<close> and
  the parts of \<^verbatim>\<open>execute\<close> that are written in this file (dimension resolution, the
  partition of the workspace, the loop nests that drive the micro-kernels, the zero fill
  of the Value padding and the preparation of the mask).

  Numbers. The dimensions held by the kernel and every local of \<^verbatim>\<open>execute\<close> are C
  \<^verbatim>\<open>int\<close>s. Signed overflow is undefined in C, so there is no wrap-around to write out:
  an \<^verbatim>\<open>int\<close> is modelled by its value in \<^typ>\<open>int\<close>, and \<open>int32\<close> below says that a
  value is representable. \<^verbatim>\<open>size_t\<close> arithmetic does wrap, and is modelled by
  \<^typ>\<open>64 word\<close>; a conversion from \<^verbatim>\<open>int\<close> to \<^verbatim>\<open>size_t\<close> is \<^const>\<open>word_of_int\<close>.
  Shape entries (\<^verbatim>\<open>dim_t\<close>, 64-bit) are compared only, and are kept as \<^typ>\<open>int\<close>.
\<close>

subsection \<open>Integers\<close>

type_synonym size_t = "64 word"

definition int32 :: "int \<Rightarrow> bool" where
  "int32 x \<longleftrightarrow> - (2 ^ 31) \<le> x \<and> x < 2 ^ 31"

text \<open>The narrowing of a 64-bit shape entry to an \<^verbatim>\<open>int\<close> member: the low 32 bits, signed.\<close>

definition to_int32 :: "int \<Rightarrow> int" where
  "to_int32 x = signed_take_bit 31 x"

text \<open>
  Modelled from the spec: \<^verbatim>\<open>pad_to\<close>, a helper of the kernel library's utility header,
  which is not part of this file. "pad(x,k) rounds x up to the next multiple of k":
  the least multiple of \<open>k\<close> that is not below \<open>x\<close>.
\<close>

definition pad_to :: "int \<Rightarrow> int \<Rightarrow> int" where
  "pad_to x k = (x + k - 1) div k * k"

subsection \<open>The kernel object\<close>

text \<open>
  The members the constructor (lines 103 to 112) derives from the descriptor's shapes.
  A member that is 0 stands for a dimension resolved at call time. (Isabelle refuses a
  name that ends in an underscore, hence the suffix \<open>_m\<close> for the source's trailing \<open>_\<close>.)
\<close>

record dynamic_quant_mha_k_t =
  batch_size_m :: int
  head_num_m :: int
  M_m :: int
  head_size_m :: int
  N_m :: int

text \<open>
  \<^verbatim>\<open>get_workspace_size\<close> (lines 130 to 135). Every product is a \<^verbatim>\<open>size_t\<close> product, the
  left operand being \<^verbatim>\<open>sizeof(...)\<close>, except \<^verbatim>\<open>pad_to(N_, 64) * pad_to(head_size_, 64)\<close>,
  which is multiplied as \<^verbatim>\<open>int\<close> before it is converted. The second argument is the
  value of \<^verbatim>\<open>omp_get_max_threads()\<close>.
\<close>

definition get_workspace_size :: "dynamic_quant_mha_k_t \<Rightarrow> int \<Rightarrow> size_t" where
  "get_workspace_size k max_threads =
     4 * word_of_int (batch_size_m k) * word_of_int (pad_to (N_m k) 64) +
     1 * word_of_int (batch_size_m k) * word_of_int (head_num_m k) *
       word_of_int (pad_to (N_m k) 64 * pad_to (head_size_m k) 64) * 2 +
     4 * word_of_int (batch_size_m k) * word_of_int (head_num_m k) *
       word_of_int (pad_to (head_size_m k) 64) +
     4 * word_of_int max_threads * 16 * word_of_int (head_num_m k) *
       word_of_int (pad_to (N_m k) 64)"

text \<open>
  The \<^verbatim>\<open>int\<close> values that enter \<^verbatim>\<open>get_workspace_size\<close> are representable: the members, the
  thread count, the sums inside \<^verbatim>\<open>pad_to\<close> and the one \<^verbatim>\<open>int\<close> product.
\<close>

definition size_ints_defined :: "dynamic_quant_mha_k_t \<Rightarrow> int \<Rightarrow> bool" where
  "size_ints_defined k max_threads \<longleftrightarrow>
     list_all int32
       [batch_size_m k, head_num_m k, M_m k, head_size_m k, N_m k, max_threads,
        N_m k + 63, head_size_m k + 63,
        pad_to (N_m k) 64 * pad_to (head_size_m k) 64]"

text \<open>
  The sizes as the specification writes them, over the integers, of a quadruple of
  dimensions and a thread count.
\<close>

definition mask_bytes :: "int \<Rightarrow> int \<Rightarrow> int" where
  "mask_bytes batch seq_k = 4 * batch * pad_to seq_k 64"

definition kv_bytes :: "int \<Rightarrow> int \<Rightarrow> int \<Rightarrow> int \<Rightarrow> int" where
  "kv_bytes batch heads seq_k head_size =
     2 * batch * heads * (pad_to seq_k 64 * pad_to head_size 64)"

definition v_scale_bytes :: "int \<Rightarrow> int \<Rightarrow> int \<Rightarrow> int" where
  "v_scale_bytes batch heads head_size = 4 * batch * heads * pad_to head_size 64"

definition softmax_scratch_bytes :: "int \<Rightarrow> int \<Rightarrow> int \<Rightarrow> int" where
  "softmax_scratch_bytes max_threads heads seq_k =
     4 * max_threads * 16 * heads * pad_to seq_k 64"

definition spec_workspace_size :: "int \<Rightarrow> int \<Rightarrow> int \<Rightarrow> int \<Rightarrow> int \<Rightarrow> int" where
  "spec_workspace_size batch heads seq_k head_size max_threads =
     mask_bytes batch seq_k + kv_bytes batch heads seq_k head_size +
     v_scale_bytes batch heads head_size + softmax_scratch_bytes max_threads heads seq_k"

subsection \<open>Descriptors\<close>

text \<open>
  The slots of \<^verbatim>\<open>mha_dense_io\<close> that this file names. The enumeration is declared in a
  header; the position of a slot in the vectors is its enumerator's value. (\<open>io_M\<close> and
  \<open>io_N\<close> are the source's \<^verbatim>\<open>io::M\<close> and \<^verbatim>\<open>io::N\<close>.)
\<close>

datatype io =
    SRC_Q | SRC_K | SRC_V | DST | WORKSPACE | BINARY_ADD
  | Q_SCALE | Q_ZP | K_SCALE | K_ZP | V_SCALE | V_ZP
  | SRC_DST_SCALE | SRC_DST_ZP | DST_SCALE | DST_ZP
  | BATCH_SIZE | HEAD_NUM | HEAD_SIZE | io_M | io_N

text \<open>
  The element types: the two this file tests for, and any other enumerator by its value.
\<close>

datatype data_type = s8 | fp32 | other_type nat

record tensor_desc =
  shape :: "int list"
  dtype :: data_type

text \<open>
  The descriptor of the operation. \<^verbatim>\<open>tensor_descs()\<close> is a vector indexed by slot: a slot
  beyond its end has no entry (\<open>None\<close>). A vector with more entries than there are slots
  overruns the copies of lines 24 and 29, and is not modelled. \<^verbatim>\<open>attrs()\<close> is a map from
  strings to strings.
\<close>

record operator_desc =
  tensor_descs :: "io \<rightharpoonup> tensor_desc"
  attrs :: "string \<rightharpoonup> string"

text \<open>
  \<^verbatim>\<open>get_tensor_shapes\<close> and \<^verbatim>\<open>get_tensor_dtypes\<close> (lines 22 to 31) build a vector with one
  element per slot and overwrite its front with the shapes (the types) of the given
  descriptors: a slot without a descriptor keeps the empty shape, and the
  value-initialised element type, which the header fixes and which is the parameter
  \<open>dt0\<close> here.
\<close>

definition get_tensor_shapes :: "(io \<rightharpoonup> tensor_desc) \<Rightarrow> io \<Rightarrow> int list" where
  "get_tensor_shapes descs slot = (case descs slot of None \<Rightarrow> [] | Some d \<Rightarrow> shape d)"

definition get_tensor_dtypes :: "data_type \<Rightarrow> (io \<rightharpoonup> tensor_desc) \<Rightarrow> io \<Rightarrow> data_type" where
  "get_tensor_dtypes dt0 descs slot = (case descs slot of None \<Rightarrow> dt0 | Some d \<Rightarrow> dtype d)"

text \<open>
  Modelled from the spec: \<^verbatim>\<open>is_all_of\<close>, a helper of the utility header. Each of the
  listed element types "must be" the required one: the predicate holds of all of them.
\<close>

definition is_all_of :: "'a list \<Rightarrow> ('a \<Rightarrow> bool) \<Rightarrow> bool" where
  "is_all_of xs p = list_all p xs"

subsection \<open>Validation: \<^verbatim>\<open>dynamic_quant_mha_kd_t::init\<close>\<close>

text \<open>
  The checks of lines 43 to 97, named after what each requires. \<^verbatim>\<open>KERNEL_INIT_CHECK\<close>
  logs the failed requirement and returns false.
\<close>

datatype init_check =
    req_approx_exp | req_stable_softmax
  | req_batch_size | req_head_num | req_M | req_head_size | req_N
  | req_shape io | req_empty io
  | req_dtype_s8 | req_dtype_fp32

text \<open>
  How \<^verbatim>\<open>init\<close> ends when it does not return true: the hardware test of line 39 (false,
  nothing logged), a failed \<^verbatim>\<open>KERNEL_INIT_CHECK\<close> (false, the requirement logged), or a
  read beyond the end of a shape vector at lines 49 to 53, which is undefined behaviour.
\<close>

datatype init_stop = no_amx_int8 | requires init_check | out_of_range

definition KERNEL_INIT_CHECK ::
  "init_check \<Rightarrow> bool \<Rightarrow> (init_stop + unit) \<Rightarrow> init_stop + unit" where
  "KERNEL_INIT_CHECK c f rest = (if f then rest else Inl (requires c))"

text \<open>
  The five checks of lines 55 to 59, as the source writes them: the third tests the
  slot \<^verbatim>\<open>io::HEAD_SIZE\<close> for \<^verbatim>\<open>M\<close> and the fourth the slot \<^verbatim>\<open>io::M\<close> for \<^verbatim>\<open>head_size\<close>.
\<close>

definition dim_checks :: "(io \<Rightarrow> int list) \<Rightarrow> (init_stop + unit) \<Rightarrow> init_stop + unit" where
  "dim_checks shapes rest =
    (let batch_size = shapes SRC_Q ! 0;
         head_num = shapes SRC_Q ! 2;
         M = shapes SRC_Q ! 1;
         head_size = shapes SRC_Q ! 3;
         N = shapes SRC_K ! 1
     in
     KERNEL_INIT_CHECK req_batch_size (batch_size > 0 \<or> shapes BATCH_SIZE = [1]) (
     KERNEL_INIT_CHECK req_head_num (head_num > 0 \<or> shapes HEAD_NUM = [1]) (
     KERNEL_INIT_CHECK req_M (M > 0 \<or> shapes HEAD_SIZE = [1]) (
     KERNEL_INIT_CHECK req_head_size (head_size > 0 \<or> shapes io_M = [1]) (
     KERNEL_INIT_CHECK req_N (N > 0 \<or> shapes io_N = [1]) rest)))))"

definition shape_checks :: "(io \<Rightarrow> int list) \<Rightarrow> (init_stop + unit) \<Rightarrow> init_stop + unit" where
  "shape_checks shapes rest =
    (let batch_size = shapes SRC_Q ! 0;
         head_num = shapes SRC_Q ! 2;
         M = shapes SRC_Q ! 1;
         head_size = shapes SRC_Q ! 3;
         N = shapes SRC_K ! 1
     in
     KERNEL_INIT_CHECK (req_shape SRC_Q) (shapes SRC_Q = [batch_size, M, head_num, head_size]) (
     KERNEL_INIT_CHECK (req_shape SRC_K) (shapes SRC_K = [batch_size, N, head_num, head_size]) (
     KERNEL_INIT_CHECK (req_shape SRC_V) (shapes SRC_V = [batch_size, N, head_num, head_size]) (
     KERNEL_INIT_CHECK (req_shape DST) (shapes DST = [batch_size, M, head_num, head_size]) (
     KERNEL_INIT_CHECK (req_shape BINARY_ADD) (shapes BINARY_ADD = [batch_size, 1, 1, N]) (
     KERNEL_INIT_CHECK (req_shape Q_SCALE) (shapes Q_SCALE = [batch_size, M]) (
     KERNEL_INIT_CHECK (req_shape K_SCALE) (shapes K_SCALE = [batch_size, N]) (
     KERNEL_INIT_CHECK (req_shape V_SCALE) (shapes V_SCALE = [batch_size, N]) (
     KERNEL_INIT_CHECK (req_shape DST_SCALE) (shapes DST_SCALE = [batch_size, M]) rest)))))))))"

definition empty_checks :: "(io \<Rightarrow> int list) \<Rightarrow> (init_stop + unit) \<Rightarrow> init_stop + unit" where
  "empty_checks shapes rest =
     KERNEL_INIT_CHECK (req_empty Q_ZP) (shapes Q_ZP = []) (
     KERNEL_INIT_CHECK (req_empty K_ZP) (shapes K_ZP = []) (
     KERNEL_INIT_CHECK (req_empty V_ZP) (shapes V_ZP = []) (
     KERNEL_INIT_CHECK (req_empty DST_ZP) (shapes DST_ZP = []) (
     KERNEL_INIT_CHECK (req_empty SRC_DST_SCALE) (shapes SRC_DST_SCALE = []) (
     KERNEL_INIT_CHECK (req_empty SRC_DST_ZP) (shapes SRC_DST_ZP = []) rest)))))"

definition dtype_checks :: "(io \<Rightarrow> data_type) \<Rightarrow> (init_stop + unit) \<Rightarrow> init_stop + unit" where
  "dtype_checks dtypes rest =
     KERNEL_INIT_CHECK req_dtype_s8
       (is_all_of [dtypes SRC_Q, dtypes SRC_K, dtypes SRC_V, dtypes DST] (\<lambda>t. t = s8)) (
     KERNEL_INIT_CHECK req_dtype_fp32
       (is_all_of [dtypes BINARY_ADD, dtypes Q_SCALE, dtypes K_SCALE, dtypes V_SCALE,
                   dtypes DST_SCALE] (\<lambda>t. t = fp32)) rest)"

text \<open>
  The run of \<^verbatim>\<open>init\<close>. \<open>amx\<close> is the value of \<^verbatim>\<open>isa_available(amx_int8)\<close>. Lines 49 to 53
  read entries 0 to 3 of the Query shape and entry 1 of the Key shape before any of
  them is compared with anything.
\<close>

definition init_run :: "bool \<Rightarrow> data_type \<Rightarrow> operator_desc \<Rightarrow> init_stop + unit" where
  "init_run amx dt0 op_desc =
    (if \<not> amx then Inl no_amx_int8
     else
       let descs = tensor_descs op_desc; op_attrs = attrs op_desc in
       KERNEL_INIT_CHECK req_approx_exp
         (op_attrs ''approx_exp'' \<noteq> None \<and> the (op_attrs ''approx_exp'') = ''True'') (
       KERNEL_INIT_CHECK req_stable_softmax
         (op_attrs ''stable_softmax'' \<noteq> None \<and> the (op_attrs ''stable_softmax'') = ''False'') (
       let shapes = get_tensor_shapes descs; dtypes = get_tensor_dtypes dt0 descs in
       if length (shapes SRC_Q) < 4 \<or> length (shapes SRC_K) < 2 then Inl out_of_range
       else
         dim_checks shapes (shape_checks shapes (empty_checks shapes (
           dtype_checks dtypes (Inr ())))))))"

text \<open>The value \<^verbatim>\<open>init\<close> returns; \<open>None\<close> where its behaviour is undefined.\<close>

definition init :: "bool \<Rightarrow> data_type \<Rightarrow> operator_desc \<Rightarrow> bool option" where
  "init amx dt0 op_desc =
    (case init_run amx dt0 op_desc of
       Inr _ \<Rightarrow> Some True
     | Inl out_of_range \<Rightarrow> None
     | Inl _ \<Rightarrow> Some False)"

text \<open>
  The constructor of the kernel (lines 103 to 112) reads the same five shape entries
  into its \<^verbatim>\<open>int\<close> members.
\<close>

definition construct :: "operator_desc \<Rightarrow> dynamic_quant_mha_k_t option" where
  "construct op_desc =
    (let t_shapes = get_tensor_shapes (tensor_descs op_desc) in
     if length (t_shapes SRC_Q) < 4 \<or> length (t_shapes SRC_K) < 2 then None
     else Some \<lparr>batch_size_m = to_int32 (t_shapes SRC_Q ! 0),
                head_num_m = to_int32 (t_shapes SRC_Q ! 2),
                M_m = to_int32 (t_shapes SRC_Q ! 1),
                head_size_m = to_int32 (t_shapes SRC_Q ! 3),
                N_m = to_int32 (t_shapes SRC_K ! 1)\<rparr>)"

subsection \<open>Memory\<close>

text \<open>
  \<^verbatim>\<open>rt_data\<close> holds one pointer per slot. A pointer is the slot whose buffer it points
  into and a byte offset from the start of that buffer; the memory gives the byte at
  each pointer. The buffers of different slots are different objects; the number of
  bytes of each is given by the caller (the extents, below), and a store beyond it is
  undefined. Multi-byte values are little-endian.
\<close>

type_synonym byte = "8 word"
type_synonym ptr = "io \<times> int"
type_synonym memory = "ptr \<Rightarrow> byte"

text \<open>\<open>ptr_add sz p n\<close> is \<^verbatim>\<open>p + n\<close> for a pointer to elements of \<open>sz\<close> bytes.\<close>

definition ptr_add :: "int \<Rightarrow> ptr \<Rightarrow> int \<Rightarrow> ptr" where
  "ptr_add sz p n = (fst p, snd p + sz * n)"

fun write_bytes :: "memory \<Rightarrow> ptr \<Rightarrow> byte list \<Rightarrow> memory" where
  "write_bytes m p [] = m"
| "write_bytes m p (b # bs) = write_bytes (m(p := b)) (ptr_add 1 p 1) bs"

definition load_bytes :: "memory \<Rightarrow> ptr \<Rightarrow> nat \<Rightarrow> byte list" where
  "load_bytes m p n = map (\<lambda>i. m (ptr_add 1 p (int i))) [0..<n]"

text \<open>A \<^verbatim>\<open>float\<close> in memory is its four bytes; \<^verbatim>\<open>-1000.f\<close> is \<^verbatim>\<open>0xC47A0000\<close>.\<close>

definition load_f32 :: "memory \<Rightarrow> ptr \<Rightarrow> byte list" where
  "load_f32 m p = load_bytes m p 4"

definition neg_1000f :: "byte list" where
  "neg_1000f = [0x00, 0x00, 0x7A, 0xC4]"

definition load_int32 :: "memory \<Rightarrow> ptr \<Rightarrow> int" where
  "load_int32 m p =
     signed_take_bit 31
       (uint (m p) + 2 ^ 8 * uint (m (ptr_add 1 p 1)) + 2 ^ 16 * uint (m (ptr_add 1 p 2)) +
        2 ^ 24 * uint (m (ptr_add 1 p 3)))"

text \<open>
  \<^verbatim>\<open>std::fill_n(first, count, value)\<close> and \<^verbatim>\<open>std::copy_n(first, count, result)\<close>, the
  element given by its bytes (its size, for the copy): nothing happens unless the
  count is positive.
\<close>

function fill_n :: "memory \<Rightarrow> ptr \<Rightarrow> int \<Rightarrow> byte list \<Rightarrow> memory" where
  "fill_n m first count v =
     (if 0 < count
      then fill_n (write_bytes m first v) (ptr_add (int (length v)) first 1) (count - 1) v
      else m)"
  by pat_completeness auto
termination
  by (relation "measure (\<lambda>(m, first, count, v). nat count)") auto

function copy_n :: "nat \<Rightarrow> memory \<Rightarrow> ptr \<Rightarrow> int \<Rightarrow> ptr \<Rightarrow> memory" where
  "copy_n sz m first count result =
     (if 0 < count
      then copy_n sz (write_bytes m result (load_bytes m first sz))
             (ptr_add (int sz) first 1) (count - 1) (ptr_add (int sz) result 1)
      else m)"
  by pat_completeness auto
termination
  by (relation "measure (\<lambda>(sz, m, first, count, result). nat count)") auto

subsection \<open>\<^verbatim>\<open>execute\<close>: dimensions and the partition of the workspace\<close>

text \<open>The dimensions \<^verbatim>\<open>execute\<close> works with (\<open>dim_M\<close>, \<open>dim_N\<close>: its locals \<^verbatim>\<open>M\<close>, \<^verbatim>\<open>N\<close>).\<close>

record dims =
  batch_size :: int
  head_num :: int
  head_size :: int
  dim_M :: int
  dim_N :: int

text \<open>Lines 150 to 154: a positive member is taken, otherwise the first \<^verbatim>\<open>int32_t\<close> of the slot.\<close>

definition resolve_dims :: "dynamic_quant_mha_k_t \<Rightarrow> memory \<Rightarrow> dims" where
  "resolve_dims k m =
    \<lparr>batch_size = (if batch_size_m k > 0 then batch_size_m k else load_int32 m (BATCH_SIZE, 0)),
     head_num = (if head_num_m k > 0 then head_num_m k else load_int32 m (HEAD_NUM, 0)),
     head_size = (if head_size_m k > 0 then head_size_m k else load_int32 m (HEAD_SIZE, 0)),
     dim_M = (if M_m k > 0 then M_m k else load_int32 m (io_M, 0)),
     dim_N = (if N_m k > 0 then N_m k else load_int32 m (io_N, 0))\<rparr>"

text \<open>Lines 156 to 168.\<close>

definition head_size_pad16 :: "dims \<Rightarrow> int" where
  "head_size_pad16 d = pad_to (head_size d) 16"

definition head_size_pad64 :: "dims \<Rightarrow> int" where
  "head_size_pad64 d = pad_to (head_size d) 64"

definition N_pad4 :: "dims \<Rightarrow> int" where
  "N_pad4 d = pad_to (dim_N d) 4"

definition N_pad16 :: "dims \<Rightarrow> int" where
  "N_pad16 d = pad_to (dim_N d) 16"

definition N_pad64 :: "dims \<Rightarrow> int" where
  "N_pad64 d = pad_to (dim_N d) 64"

definition size_trq10n_v_block :: "dims \<Rightarrow> int" where
  "size_trq10n_v_block d = 16 * N_pad4 d"

definition size_pad0_v_block :: "dims \<Rightarrow> int" where
  "size_pad0_v_block d = N_pad64 d * 16 - size_trq10n_v_block d"

definition tmp_mask_size :: "dims \<Rightarrow> int" where
  "tmp_mask_size d = batch_size d * N_pad16 d"

definition head_tmp_k_size :: "dims \<Rightarrow> int" where
  "head_tmp_k_size d = head_size_pad64 d * N_pad16 d"

definition head_tmp_v_size :: "dims \<Rightarrow> int" where
  "head_tmp_v_size d = N_pad64 d * head_size_pad16 d"

definition head_tmp_v_scale_size :: "dims \<Rightarrow> int" where
  "head_tmp_v_scale_size d = head_size_pad16 d"

definition tmp_thread_size :: "dims \<Rightarrow> int" where
  "tmp_thread_size d = head_num d * 16 * N_pad64 d"

text \<open>
  Lines 170 to 174, and the end of the last thread's region (line 175, which the source
  keeps as a comment): \<^verbatim>\<open>tmp_mask\<close> and \<^verbatim>\<open>tmp_v_scale\<close> point to \<^verbatim>\<open>float\<close>s, the others to
  bytes.
\<close>

definition workspace :: ptr where
  "workspace = (WORKSPACE, 0)"

definition tmp_k :: "dims \<Rightarrow> ptr" where
  "tmp_k d = ptr_add 4 workspace (tmp_mask_size d)"

definition tmp_v :: "dims \<Rightarrow> ptr" where
  "tmp_v d = ptr_add 1 (tmp_k d) (batch_size d * head_num d * head_tmp_k_size d)"

definition tmp_v_scale :: "dims \<Rightarrow> ptr" where
  "tmp_v_scale d = ptr_add 1 (tmp_v d) (batch_size d * head_num d * head_tmp_v_size d)"

definition tmp_threads :: "dims \<Rightarrow> ptr" where
  "tmp_threads d =
     ptr_add 4 (tmp_v_scale d) (batch_size d * head_num d * head_tmp_v_scale_size d)"

definition tmp_end :: "dims \<Rightarrow> int \<Rightarrow> ptr" where
  "tmp_end d max_threads = ptr_add 1 (tmp_threads d) (max_threads * tmp_thread_size d)"

text \<open>
  The \<^verbatim>\<open>int\<close> values these lines and \<^verbatim>\<open>get_workspace_size\<close> compute are all representable:
  the condition under which the arithmetic of the source is defined, and is the
  arithmetic of the model.
\<close>

definition ints_defined :: "dims \<Rightarrow> int \<Rightarrow> bool" where
  "ints_defined d max_threads \<longleftrightarrow>
     list_all int32
       [batch_size d, head_num d, head_size d, dim_M d, dim_N d, max_threads,
        head_size d + 63, dim_N d + 63,
        N_pad64 d * 16, tmp_mask_size d, head_tmp_k_size d, head_tmp_v_size d,
        tmp_thread_size d,
        batch_size d * head_num d * head_tmp_k_size d,
        batch_size d * head_num d * head_tmp_v_size d,
        batch_size d * head_num d * head_tmp_v_scale_size d,
        max_threads * tmp_thread_size d,
        pad_to (dim_N d) 64 * pad_to (head_size d) 64]"

subsection \<open>The micro-kernels\<close>

text \<open>
  The run-time parameter structs of the four micro-kernels, with the fields in the
  order in which \<^verbatim>\<open>execute\<close> initialises them (each field carries a prefix for its
  struct). The \<^verbatim>\<open>batchstep\<close> fields are \<^verbatim>\<open>size_t\<close>.
\<close>

record tr_k_data =
  k_src :: ptr
  k_dst :: ptr
  k_ld_src :: int
  k_M :: int
  k_N :: int

record tr_v_data =
  v_src :: ptr
  v_dst :: ptr
  v_src_scale :: ptr
  v_dst_scale :: ptr
  v_ld_src :: int
  v_M :: int
  v_N :: int

record mm_qk_data =
  qk_src0 :: ptr
  qk_src1 :: ptr
  qk_scale_src0 :: ptr
  qk_scale_src1 :: ptr
  qk_src_bias :: ptr
  qk_dst :: ptr
  qk_K :: int
  qk_N :: int
  qk_ld_src0 :: int
  qk_ld_src1 :: int
  qk_ld_dst :: int
  qk_batch_size :: int
  qk_batchstep_src0 :: size_t
  qk_batchstep_src0scale :: size_t
  qk_batchstep_src1 :: size_t
  qk_batchstep_src1scale :: size_t
  qk_batchstep_dst :: size_t

record mm_av_data =
  av_src0 :: ptr
  av_src1 :: ptr
  av_scale_src1 :: ptr
  av_dst :: ptr
  av_dst_scale :: ptr
  av_K :: int
  av_N :: int
  av_ld_src0 :: int
  av_ld_src1 :: int
  av_ld_dst :: int
  av_batch_size :: int
  av_batchstep_src0 :: size_t
  av_batchstep_src1 :: size_t
  av_batchstep_src1scale :: size_t
  av_batchstep_dst :: size_t

text \<open>
  Modelled from the spec: the four micro-kernels, which are generated by other files.
  Each is consumed through "invoke with a runtime-parameter struct" and writes its
  result through the \<^verbatim>\<open>dst\<close> (and \<^verbatim>\<open>dst_scale\<close>) pointer of the struct: the transposed
  Key block; the transposed, re-quantised Value block and its scales; the quantised
  probabilities; the output block and its row scales. What a call writes is a function
  of the struct and of the memory it runs on, and is a parameter of the model: the bytes
  stored from \<^verbatim>\<open>dst\<close> on, and those stored from \<^verbatim>\<open>dst_scale\<close> on.
\<close>

record micro_kernels =
  ker_seq_cpy_k :: "tr_k_data \<Rightarrow> memory \<Rightarrow> byte list"
  ker_seq_cpy_v :: "tr_v_data \<Rightarrow> memory \<Rightarrow> byte list \<times> byte list"
  ker_qxk :: "mm_qk_data \<Rightarrow> memory \<Rightarrow> byte list"
  ker_axv :: "mm_av_data \<Rightarrow> memory \<Rightarrow> byte list \<times> byte list"

subsection \<open>\<^verbatim>\<open>execute\<close>, phase 1: the transposition of Key and Value\<close>

text \<open>The pointers \<^verbatim>\<open>execute\<close> takes from \<^verbatim>\<open>rt_data\<close> (lines 139 to 148).\<close>

definition src_q :: ptr where "src_q = (SRC_Q, 0)"
definition src_k :: ptr where "src_k = (SRC_K, 0)"
definition mask_ptr :: ptr where "mask_ptr = (BINARY_ADD, 0)"
definition src_v :: ptr where "src_v = (SRC_V, 0)"
definition dst :: ptr where "dst = (DST, 0)"
definition q_scale :: ptr where "q_scale = (Q_SCALE, 0)"
definition k_scale :: ptr where "k_scale = (K_SCALE, 0)"
definition v_scale :: ptr where "v_scale = (V_SCALE, 0)"
definition dst_scale :: ptr where "dst_scale = (DST_SCALE, 0)"

text \<open>Lines 182 to 193: the Key of one batch and head, in blocks of 16 rows.\<close>

definition tr_k_data_of :: "dims \<Rightarrow> int \<Rightarrow> int \<Rightarrow> int \<Rightarrow> tr_k_data" where
  "tr_k_data_of d ibs ihn j =
    (let curr_k = ptr_add 1 src_k (ibs * dim_N d * head_size d * head_num d + ihn * head_size d);
         curr_tmp_k = ptr_add 1 (tmp_k d) ((ibs * head_num d + ihn) * head_tmp_k_size d)
     in \<lparr>k_src = ptr_add 1 curr_k (j * (head_size d * head_num d)),
         k_dst = ptr_add 1 curr_tmp_k (j * head_size_pad64 d),
         k_ld_src = head_size d * head_num d,
         k_M = min 16 (dim_N d - j),
         k_N = head_size d\<rparr>)"

definition transpose_k_block ::
  "micro_kernels \<Rightarrow> dims \<Rightarrow> int \<Rightarrow> int \<Rightarrow> int \<Rightarrow> memory \<Rightarrow> memory" where
  "transpose_k_block K d ibs ihn j m =
    (let tr_k = tr_k_data_of d ibs ihn j
     in write_bytes m (k_dst tr_k) (ker_seq_cpy_k K tr_k m))"

function transpose_k_loop ::
  "micro_kernels \<Rightarrow> dims \<Rightarrow> int \<Rightarrow> int \<Rightarrow> int \<Rightarrow> memory \<Rightarrow> memory" where
  "transpose_k_loop K d ibs ihn j m =
     (if j < dim_N d
      then transpose_k_loop K d ibs ihn (j + 16) (transpose_k_block K d ibs ihn j m)
      else m)"
  by pat_completeness auto
termination
  by (relation "measure (\<lambda>(K, d, ibs, ihn, j, m). nat (dim_N d - j))") auto

text \<open>
  Lines 196 to 214: the Value of one batch and head, in blocks of 16 columns; after the
  micro-kernel has run on a block, line 213 fills the rest of the block with zeros.
\<close>

definition block_tmp_v :: "dims \<Rightarrow> int \<Rightarrow> int \<Rightarrow> int \<Rightarrow> ptr" where
  "block_tmp_v d ibs ihn j =
    (let curr_tmp_v = ptr_add 1 (tmp_v d) ((ibs * head_num d + ihn) * head_tmp_v_size d)
     in ptr_add 1 curr_tmp_v (j * N_pad64 d))"

definition tr_v_data_of :: "dims \<Rightarrow> int \<Rightarrow> int \<Rightarrow> int \<Rightarrow> tr_v_data" where
  "tr_v_data_of d ibs ihn j =
    (let curr_v = ptr_add 1 src_v (ibs * dim_N d * head_size d * head_num d + ihn * head_size d);
         curr_v_scale = ptr_add 4 v_scale (ibs * dim_N d);
         curr_tmp_v_scale =
           ptr_add 4 (tmp_v_scale d) ((ibs * head_num d + ihn) * head_tmp_v_scale_size d)
     in \<lparr>v_src = ptr_add 1 curr_v j,
         v_dst = block_tmp_v d ibs ihn j,
         v_src_scale = curr_v_scale,
         v_dst_scale = ptr_add 4 curr_tmp_v_scale j,
         v_ld_src = head_size d * head_num d,
         v_M = dim_N d,
         v_N = min 16 (head_size d - j)\<rparr>)"

definition transpose_v_block ::
  "micro_kernels \<Rightarrow> dims \<Rightarrow> int \<Rightarrow> int \<Rightarrow> int \<Rightarrow> memory \<Rightarrow> memory" where
  "transpose_v_block K d ibs ihn j m =
    (let tr_v = tr_v_data_of d ibs ihn j;
         out = ker_seq_cpy_v K tr_v m;
         m1 = write_bytes (write_bytes m (v_dst tr_v) (fst out)) (v_dst_scale tr_v) (snd out)
     in if size_pad0_v_block d \<noteq> 0
        then fill_n m1 (ptr_add 1 (block_tmp_v d ibs ihn j) (size_trq10n_v_block d))
               (size_pad0_v_block d) [0]
        else m1)"

function transpose_v_loop ::
  "micro_kernels \<Rightarrow> dims \<Rightarrow> int \<Rightarrow> int \<Rightarrow> int \<Rightarrow> memory \<Rightarrow> memory" where
  "transpose_v_loop K d ibs ihn j m =
     (if j < head_size d
      then transpose_v_loop K d ibs ihn (j + 16) (transpose_v_block K d ibs ihn j m)
      else m)"
  by pat_completeness auto
termination
  by (relation "measure (\<lambda>(K, d, ibs, ihn, j, m). nat (head_size d - j))") auto

text \<open>
  Lines 178 to 216. The two loops are collapsed into one parallel loop, whose iterations
  are independent; the model runs them in the order of the loop nest.
\<close>

function phase1_heads :: "micro_kernels \<Rightarrow> dims \<Rightarrow> int \<Rightarrow> int \<Rightarrow> memory \<Rightarrow> memory" where
  "phase1_heads K d ibs ihn m =
     (if ihn < head_num d
      then phase1_heads K d ibs (ihn + 1)
             (transpose_v_loop K d ibs ihn 0 (transpose_k_loop K d ibs ihn 0 m))
      else m)"
  by pat_completeness auto
termination
  by (relation "measure (\<lambda>(K, d, ibs, ihn, m). nat (head_num d - ihn))") auto

function phase1 :: "micro_kernels \<Rightarrow> dims \<Rightarrow> int \<Rightarrow> memory \<Rightarrow> memory" where
  "phase1 K d ibs m =
     (if ibs < batch_size d then phase1 K d (ibs + 1) (phase1_heads K d ibs 0 m) else m)"
  by pat_completeness auto
termination
  by (relation "measure (\<lambda>(K, d, ibs, m). nat (batch_size d - ibs))") auto

subsection \<open>\<^verbatim>\<open>execute\<close>: the mask\<close>

text \<open>
  Lines 218 to 227. The result is the new value of the variable \<^verbatim>\<open>tmp_mask\<close> and the
  memory: either every row of the mask is copied to the start of the workspace and
  padded, or \<^verbatim>\<open>tmp_mask\<close> is made to point to the caller's mask.
\<close>

definition mask_row :: "dims \<Rightarrow> int \<Rightarrow> memory \<Rightarrow> memory" where
  "mask_row d ibs m =
    (let curr_mask = ptr_add 4 mask_ptr (ibs * dim_N d);
         curr_tmp_mask = ptr_add 4 workspace (ibs * N_pad16 d)
     in fill_n (copy_n 4 m curr_mask (dim_N d) curr_tmp_mask)
          (ptr_add 4 curr_tmp_mask (dim_N d)) (N_pad16 d - dim_N d) neg_1000f)"

function mask_loop :: "dims \<Rightarrow> int \<Rightarrow> memory \<Rightarrow> memory" where
  "mask_loop d ibs m =
     (if ibs < batch_size d then mask_loop d (ibs + 1) (mask_row d ibs m) else m)"
  by pat_completeness auto
termination
  by (relation "measure (\<lambda>(d, ibs, m). nat (batch_size d - ibs))") auto

definition prepare_mask :: "dims \<Rightarrow> memory \<Rightarrow> ptr \<times> memory" where
  "prepare_mask d m =
     (if dim_N d \<noteq> N_pad16 d then (workspace, mask_loop d 0 m) else (mask_ptr, m))"

subsection \<open>\<^verbatim>\<open>execute\<close>, phase 2: the fused attention\<close>

text \<open>
  What \<^verbatim>\<open>execute\<close> changes: the memory, the flags \<^verbatim>\<open>amx_init\<close> (by thread number), and
  the tile registers, of which the model keeps the threads that ran \<^verbatim>\<open>ker_amx_cfg_\<close>, in
  order.
\<close>

record exec_state =
  mem :: memory
  amx_init :: "int \<Rightarrow> bool"
  tile_cfg :: "int list"

text \<open>
  Lines 238 to 265 and 267 to 290: the structs for one block of 16 rows of one batch, on
  the thread \<open>t\<close>, with \<^verbatim>\<open>tmp_mask\<close> as line 218 to 227 left it.
\<close>

definition curr_tmp :: "dims \<Rightarrow> int \<Rightarrow> ptr" where
  "curr_tmp d t = ptr_add 1 (tmp_threads d) (t * tmp_thread_size d)"

definition mm_qk_data_of :: "dims \<Rightarrow> ptr \<Rightarrow> int \<Rightarrow> int \<Rightarrow> int \<Rightarrow> mm_qk_data" where
  "mm_qk_data_of d tmp_mask t ibs i =
    (let curr_q = ptr_add 1 src_q ((ibs * dim_M d + i) * head_size d * head_num d);
         curr_q_scale = ptr_add 4 q_scale (ibs * dim_M d + i);
         curr_tmp_k = ptr_add 1 (tmp_k d) (ibs * head_num d * head_tmp_k_size d);
         curr_k_scale = ptr_add 4 k_scale (ibs * dim_N d);
         curr_mask = ptr_add 4 tmp_mask (ibs * N_pad16 d)
     in \<lparr>qk_src0 = curr_q,
         qk_src1 = curr_tmp_k,
         qk_scale_src0 = curr_q_scale,
         qk_scale_src1 = curr_k_scale,
         qk_src_bias = curr_mask,
         qk_dst = curr_tmp d t,
         qk_K = head_size d,
         qk_N = dim_N d,
         qk_ld_src0 = head_size d * head_num d,
         qk_ld_src1 = head_size_pad64 d * 16,
         qk_ld_dst = N_pad64 d,
         qk_batch_size = head_num d,
         qk_batchstep_src0 = word_of_int (head_size d),
         qk_batchstep_src0scale = 0,
         qk_batchstep_src1 = word_of_int (head_tmp_k_size d),
         qk_batchstep_src1scale = 0,
         qk_batchstep_dst = 16 * word_of_int (N_pad64 d)\<rparr>)"

definition mm_av_data_of :: "dims \<Rightarrow> int \<Rightarrow> int \<Rightarrow> int \<Rightarrow> mm_av_data" where
  "mm_av_data_of d t ibs i =
    (let curr_tmp_v = ptr_add 1 (tmp_v d) (ibs * head_num d * head_tmp_v_size d);
         curr_tmp_v_scale =
           ptr_add 4 (tmp_v_scale d) (ibs * head_num d * head_tmp_v_scale_size d);
         curr_dst = ptr_add 1 dst ((ibs * dim_M d + i) * head_size d * head_num d);
         curr_dst_scale = ptr_add 4 dst_scale (ibs * dim_M d + i)
     in \<lparr>av_src0 = curr_tmp d t,
         av_src1 = curr_tmp_v,
         av_scale_src1 = curr_tmp_v_scale,
         av_dst = curr_dst,
         av_dst_scale = curr_dst_scale,
         av_K = dim_N d,
         av_N = head_size d,
         av_ld_src0 = N_pad64 d,
         av_ld_src1 = N_pad64 d * 16,
         av_ld_dst = head_size d * head_num d,
         av_batch_size = head_num d,
         av_batchstep_src0 = 16 * word_of_int (N_pad64 d),
         av_batchstep_src1 = word_of_int (head_tmp_v_size d),
         av_batchstep_src1scale = 4 * word_of_int (head_tmp_v_scale_size d),
         av_batchstep_dst = word_of_int (head_size d)\<rparr>)"

text \<open>
  One iteration of the loop body (lines 233 to 290), on the thread \<open>t\<close>: the tile
  registers are configured if this thread has not done so in this call, then the two
  micro-kernels run.
\<close>

definition attention_block ::
  "micro_kernels \<Rightarrow> dims \<Rightarrow> ptr \<Rightarrow> int \<Rightarrow> int \<Rightarrow> int \<Rightarrow> exec_state \<Rightarrow> exec_state" where
  "attention_block K d tmp_mask t ibs i s =
    (let s1 = (if \<not> amx_init s t
               then s\<lparr>amx_init := (amx_init s)(t := True), tile_cfg := tile_cfg s @ [t]\<rparr>
               else s);
         mm_qk = mm_qk_data_of d tmp_mask t ibs i;
         m2 = write_bytes (mem s1) (qk_dst mm_qk) (ker_qxk K mm_qk (mem s1));
         mm_av = mm_av_data_of d t ibs i;
         out = ker_axv K mm_av m2;
         m3 = write_bytes (write_bytes m2 (av_dst mm_av) (fst out)) (av_dst_scale mm_av) (snd out)
     in s1\<lparr>mem := m3\<rparr>)"

text \<open>
  Lines 230 to 292. The two loops are collapsed into one parallel loop; the model runs
  the iterations in the order of the loop nest, \<open>thr ibs i\<close> being the number of the
  thread that runs iteration \<open>(ibs, i)\<close>.
\<close>

function phase2_rows ::
  "micro_kernels \<Rightarrow> (int \<Rightarrow> int \<Rightarrow> int) \<Rightarrow> dims \<Rightarrow> ptr \<Rightarrow> int \<Rightarrow> int \<Rightarrow> exec_state
     \<Rightarrow> exec_state" where
  "phase2_rows K thr d tmp_mask ibs i s =
     (if i < dim_M d
      then phase2_rows K thr d tmp_mask ibs (i + 16)
             (attention_block K d tmp_mask (thr ibs i) ibs i s)
      else s)"
  by pat_completeness auto
termination
  by (relation "measure (\<lambda>(K, thr, d, tmp_mask, ibs, i, s). nat (dim_M d - i))") auto

function phase2 ::
  "micro_kernels \<Rightarrow> (int \<Rightarrow> int \<Rightarrow> int) \<Rightarrow> dims \<Rightarrow> ptr \<Rightarrow> int \<Rightarrow> exec_state \<Rightarrow> exec_state" where
  "phase2 K thr d tmp_mask ibs s =
     (if ibs < batch_size d
      then phase2 K thr d tmp_mask (ibs + 1) (phase2_rows K thr d tmp_mask ibs 0 s)
      else s)"
  by pat_completeness auto
termination
  by (relation "measure (\<lambda>(K, thr, d, tmp_mask, ibs, s). nat (batch_size d - ibs))") auto

subsection \<open>The extents of the buffers\<close>

text \<open>
  Every pointer of \<^verbatim>\<open>rt_data\<close> points to a buffer of the caller, of \<open>ext b\<close> bytes for the
  slot \<open>b\<close>. A store of \<open>n\<close> bytes from the pointer \<open>p\<close> is defined when these bytes are
  bytes of the buffer of \<open>p\<close>; a store of no byte always is. A byte is outside when its
  offset is not one of its buffer.
\<close>

type_synonym extents = "io \<Rightarrow> int"

definition store_ok :: "extents \<Rightarrow> ptr \<Rightarrow> int \<Rightarrow> bool" where
  "store_ok ext p n \<longleftrightarrow> n \<le> 0 \<or> 0 \<le> snd p \<and> snd p + n \<le> ext (fst p)"

definition outside :: "extents \<Rightarrow> ptr \<Rightarrow> bool" where
  "outside ext p \<longleftrightarrow> snd p < 0 \<or> ext (fst p) \<le> snd p"

text \<open>
  The stores of phase 1, in the order of the loops: what the Key micro-kernel stores for
  a block; what the Value micro-kernel stores for a block, then the zeros of line 213.
  The memory is the one each iteration runs on.
\<close>

definition transpose_k_block_ok ::
  "extents \<Rightarrow> micro_kernels \<Rightarrow> dims \<Rightarrow> int \<Rightarrow> int \<Rightarrow> int \<Rightarrow> memory \<Rightarrow> bool" where
  "transpose_k_block_ok ext K d ibs ihn j m =
    (let tr_k = tr_k_data_of d ibs ihn j
     in store_ok ext (k_dst tr_k) (int (length (ker_seq_cpy_k K tr_k m))))"

function transpose_k_loop_ok ::
  "extents \<Rightarrow> micro_kernels \<Rightarrow> dims \<Rightarrow> int \<Rightarrow> int \<Rightarrow> int \<Rightarrow> memory \<Rightarrow> bool" where
  "transpose_k_loop_ok ext K d ibs ihn j m =
     (if j < dim_N d
      then transpose_k_block_ok ext K d ibs ihn j m \<and>
           transpose_k_loop_ok ext K d ibs ihn (j + 16) (transpose_k_block K d ibs ihn j m)
      else True)"
  by pat_completeness auto
termination
  by (relation "measure (\<lambda>(ext, K, d, ibs, ihn, j, m). nat (dim_N d - j))") auto

definition transpose_v_block_ok ::
  "extents \<Rightarrow> micro_kernels \<Rightarrow> dims \<Rightarrow> int \<Rightarrow> int \<Rightarrow> int \<Rightarrow> memory \<Rightarrow> bool" where
  "transpose_v_block_ok ext K d ibs ihn j m =
    (let tr_v = tr_v_data_of d ibs ihn j;
         out = ker_seq_cpy_v K tr_v m
     in store_ok ext (v_dst tr_v) (int (length (fst out))) \<and>
        store_ok ext (v_dst_scale tr_v) (int (length (snd out))) \<and>
        store_ok ext (ptr_add 1 (block_tmp_v d ibs ihn j) (size_trq10n_v_block d))
          (size_pad0_v_block d))"

function transpose_v_loop_ok ::
  "extents \<Rightarrow> micro_kernels \<Rightarrow> dims \<Rightarrow> int \<Rightarrow> int \<Rightarrow> int \<Rightarrow> memory \<Rightarrow> bool" where
  "transpose_v_loop_ok ext K d ibs ihn j m =
     (if j < head_size d
      then transpose_v_block_ok ext K d ibs ihn j m \<and>
           transpose_v_loop_ok ext K d ibs ihn (j + 16) (transpose_v_block K d ibs ihn j m)
      else True)"
  by pat_completeness auto
termination
  by (relation "measure (\<lambda>(ext, K, d, ibs, ihn, j, m). nat (head_size d - j))") auto

function phase1_heads_ok ::
  "extents \<Rightarrow> micro_kernels \<Rightarrow> dims \<Rightarrow> int \<Rightarrow> int \<Rightarrow> memory \<Rightarrow> bool" where
  "phase1_heads_ok ext K d ibs ihn m =
     (if ihn < head_num d
      then transpose_k_loop_ok ext K d ibs ihn 0 m \<and>
           transpose_v_loop_ok ext K d ibs ihn 0 (transpose_k_loop K d ibs ihn 0 m) \<and>
           phase1_heads_ok ext K d ibs (ihn + 1)
             (transpose_v_loop K d ibs ihn 0 (transpose_k_loop K d ibs ihn 0 m))
      else True)"
  by pat_completeness auto
termination
  by (relation "measure (\<lambda>(ext, K, d, ibs, ihn, m). nat (head_num d - ihn))") auto

function phase1_ok :: "extents \<Rightarrow> micro_kernels \<Rightarrow> dims \<Rightarrow> int \<Rightarrow> memory \<Rightarrow> bool" where
  "phase1_ok ext K d ibs m =
     (if ibs < batch_size d
      then phase1_heads_ok ext K d ibs 0 m \<and>
           phase1_ok ext K d (ibs + 1) (phase1_heads K d ibs 0 m)
      else True)"
  by pat_completeness auto
termination
  by (relation "measure (\<lambda>(ext, K, d, ibs, m). nat (batch_size d - ibs))") auto

text \<open>
  The stores of lines 218 to 227: the row of the mask that line 222 stores, the padding
  that line 223 stores.
\<close>

definition mask_row_ok :: "extents \<Rightarrow> dims \<Rightarrow> int \<Rightarrow> bool" where
  "mask_row_ok ext d ibs =
    (let curr_tmp_mask = ptr_add 4 workspace (ibs * N_pad16 d)
     in store_ok ext curr_tmp_mask (4 * dim_N d) \<and>
        store_ok ext (ptr_add 4 curr_tmp_mask (dim_N d)) (4 * (N_pad16 d - dim_N d)))"

function mask_loop_ok :: "extents \<Rightarrow> dims \<Rightarrow> int \<Rightarrow> bool" where
  "mask_loop_ok ext d ibs =
     (if ibs < batch_size d then mask_row_ok ext d ibs \<and> mask_loop_ok ext d (ibs + 1)
      else True)"
  by pat_completeness auto
termination
  by (relation "measure (\<lambda>(ext, d, ibs). nat (batch_size d - ibs))") auto

definition prepare_mask_ok :: "extents \<Rightarrow> dims \<Rightarrow> bool" where
  "prepare_mask_ok ext d = (if dim_N d \<noteq> N_pad16 d then mask_loop_ok ext d 0 else True)"

text \<open>
  Phase 2: the flag of the thread is one of the 256 of the array \<^verbatim>\<open>amx_init\<close> (line 228),
  and what the two micro-kernels store lies in the buffers.
\<close>

definition attention_block_ok ::
  "extents \<Rightarrow> micro_kernels \<Rightarrow> dims \<Rightarrow> ptr \<Rightarrow> int \<Rightarrow> int \<Rightarrow> int \<Rightarrow> exec_state \<Rightarrow> bool" where
  "attention_block_ok ext K d tmp_mask t ibs i s =
    (let mm_qk = mm_qk_data_of d tmp_mask t ibs i;
         m2 = write_bytes (mem s) (qk_dst mm_qk) (ker_qxk K mm_qk (mem s));
         mm_av = mm_av_data_of d t ibs i;
         out = ker_axv K mm_av m2
     in 0 \<le> t \<and> t < 256 \<and>
        store_ok ext (qk_dst mm_qk) (int (length (ker_qxk K mm_qk (mem s)))) \<and>
        store_ok ext (av_dst mm_av) (int (length (fst out))) \<and>
        store_ok ext (av_dst_scale mm_av) (int (length (snd out))))"

function phase2_rows_ok ::
  "extents \<Rightarrow> micro_kernels \<Rightarrow> (int \<Rightarrow> int \<Rightarrow> int) \<Rightarrow> dims \<Rightarrow> ptr \<Rightarrow> int \<Rightarrow> int \<Rightarrow> exec_state
     \<Rightarrow> bool" where
  "phase2_rows_ok ext K thr d tmp_mask ibs i s =
     (if i < dim_M d
      then attention_block_ok ext K d tmp_mask (thr ibs i) ibs i s \<and>
           phase2_rows_ok ext K thr d tmp_mask ibs (i + 16)
             (attention_block K d tmp_mask (thr ibs i) ibs i s)
      else True)"
  by pat_completeness auto
termination
  by (relation "measure (\<lambda>(ext, K, thr, d, tmp_mask, ibs, i, s). nat (dim_M d - i))") auto

function phase2_ok ::
  "extents \<Rightarrow> micro_kernels \<Rightarrow> (int \<Rightarrow> int \<Rightarrow> int) \<Rightarrow> dims \<Rightarrow> ptr \<Rightarrow> int \<Rightarrow> exec_state
     \<Rightarrow> bool" where
  "phase2_ok ext K thr d tmp_mask ibs s =
     (if ibs < batch_size d
      then phase2_rows_ok ext K thr d tmp_mask ibs 0 s \<and>
           phase2_ok ext K thr d tmp_mask (ibs + 1) (phase2_rows K thr d tmp_mask ibs 0 s)
      else True)"
  by pat_completeness auto
termination
  by (relation "measure (\<lambda>(ext, K, thr, d, tmp_mask, ibs, s). nat (batch_size d - ibs))") auto

subsection \<open>\<^verbatim>\<open>execute\<close>\<close>

text \<open>
  The whole call (lines 137 to 298), for the value \<open>max_threads\<close> of
  \<^verbatim>\<open>omp_get_max_threads()\<close> and the extents \<open>ext\<close> of the buffers of the caller. Line 229
  clears the first \<open>max_threads\<close> flags of the array of 256. The behaviour of the call is
  undefined, and the result \<open>None\<close>, when a store is not inside its buffer or when
  line 229 or a thread goes beyond the 256 flags; otherwise the call returns true.
\<close>

definition execute ::
  "extents \<Rightarrow> micro_kernels \<Rightarrow> (int \<Rightarrow> int \<Rightarrow> int) \<Rightarrow> int \<Rightarrow> dynamic_quant_mha_k_t \<Rightarrow> exec_state
     \<Rightarrow> (bool \<times> exec_state) option" where
  "execute ext K thr max_threads k s =
    (let d = resolve_dims k (mem s);
         m1 = phase1 K d 0 (mem s);
         pm = prepare_mask d m1;
         s2 = s\<lparr>mem := snd pm,
                amx_init := (\<lambda>t. if 0 \<le> t \<and> t < max_threads then False else amx_init s t)\<rparr>
     in if phase1_ok ext K d 0 (mem s) \<and> prepare_mask_ok ext d \<and>
           max_threads \<le> 256 \<and> phase2_ok ext K thr d (fst pm) 0 s2
        then Some (True, phase2 K thr d (fst pm) 0 s2)
        else None)"

subsection \<open>Example inputs\<close>

text \<open>
  A kernel whose batch size is left to the call, and a memory in which the slot
  \<^verbatim>\<open>io::BATCH_SIZE\<close> holds the \<^verbatim>\<open>int32_t\<close> 2 and every other byte is 0.
\<close>

definition dynamic_batch_kernel :: dynamic_quant_mha_k_t where
  "dynamic_batch_kernel =
     \<lparr>batch_size_m = 0, head_num_m = 1, M_m = 16, head_size_m = 64, N_m = 16\<rparr>"

definition batch_2_memory :: memory where
  "batch_2_memory = (\<lambda>p. if p = (BATCH_SIZE, 0) then 2 else 0)"

text \<open>Two kernels that differ in the batch size only, of 4096 and 8192.\<close>

definition batch_4096_kernel :: dynamic_quant_mha_k_t where
  "batch_4096_kernel =
     \<lparr>batch_size_m = 4096, head_num_m = 1048576, M_m = 16, head_size_m = 32768,
      N_m = 32768\<rparr>"

definition batch_8192_kernel :: dynamic_quant_mha_k_t where
  "batch_8192_kernel =
     \<lparr>batch_size_m = 8192, head_num_m = 1048576, M_m = 16, head_size_m = 32768,
      N_m = 32768\<rparr>"

text \<open>A kernel with all dimensions fixed: one batch, two heads, 20 keys, 32 columns.\<close>

definition static_kernel :: dynamic_quant_mha_k_t where
  "static_kernel =
     \<lparr>batch_size_m = 1, head_num_m = 2, M_m = 16, head_size_m = 32, N_m = 20\<rparr>"

text \<open>
  Descriptors. In the first, seq_q is 0 in every shape and the slot \<^verbatim>\<open>io::M\<close> has the
  shape \<open>{1}\<close>; the second has that singleton in the slot \<^verbatim>\<open>io::HEAD_SIZE\<close> instead, and
  nothing in \<^verbatim>\<open>io::M\<close>. In the third, the Query has the empty shape and there is a
  zero point for it.
\<close>

definition good_attrs :: "string \<rightharpoonup> string" where
  "good_attrs = [''approx_exp'' \<mapsto> ''True'', ''stable_softmax'' \<mapsto> ''False'']"

definition dynamic_M_desc :: operator_desc where
  "dynamic_M_desc =
    \<lparr>tensor_descs =
       [SRC_Q \<mapsto> \<lparr>shape = [2, 0, 4, 64], dtype = s8\<rparr>,
        SRC_K \<mapsto> \<lparr>shape = [2, 16, 4, 64], dtype = s8\<rparr>,
        SRC_V \<mapsto> \<lparr>shape = [2, 16, 4, 64], dtype = s8\<rparr>,
        DST \<mapsto> \<lparr>shape = [2, 0, 4, 64], dtype = s8\<rparr>,
        BINARY_ADD \<mapsto> \<lparr>shape = [2, 1, 1, 16], dtype = fp32\<rparr>,
        Q_SCALE \<mapsto> \<lparr>shape = [2, 0], dtype = fp32\<rparr>,
        K_SCALE \<mapsto> \<lparr>shape = [2, 16], dtype = fp32\<rparr>,
        V_SCALE \<mapsto> \<lparr>shape = [2, 16], dtype = fp32\<rparr>,
        DST_SCALE \<mapsto> \<lparr>shape = [2, 0], dtype = fp32\<rparr>,
        io_M \<mapsto> \<lparr>shape = [1], dtype = other_type 0\<rparr>],
     attrs = good_attrs\<rparr>"

definition misplaced_M_desc :: operator_desc where
  "misplaced_M_desc =
     dynamic_M_desc\<lparr>tensor_descs :=
       (tensor_descs dynamic_M_desc)(io_M := None,
          HEAD_SIZE \<mapsto> \<lparr>shape = [1], dtype = other_type 0\<rparr>)\<rparr>"

definition short_query_desc :: operator_desc where
  "short_query_desc =
    \<lparr>tensor_descs =
       [SRC_Q \<mapsto> \<lparr>shape = [], dtype = s8\<rparr>,
        Q_ZP \<mapsto> \<lparr>shape = [1], dtype = s8\<rparr>],
     attrs = good_attrs\<rparr>"


definition counting_memory :: memory where
  "counting_memory = (\<lambda>p. word_of_int (snd p))"

definition ones_kernels :: micro_kernels where
  "ones_kernels =
     \<lparr>ker_seq_cpy_k = (\<lambda>tr m. replicate (16 * nat (pad_to (k_N tr) 64)) 1),
      ker_seq_cpy_v = (\<lambda>tr m. (replicate (16 * nat (pad_to (v_M tr) 4)) 1, replicate 64 1)),
      ker_qxk = (\<lambda>mm m. replicate (16 * nat (qk_ld_dst mm) * nat (qk_batch_size mm)) 1),
      ker_axv = (\<lambda>mm m. (replicate (16 * nat (av_N mm)) 1, replicate 64 1))\<rparr>"

text \<open>
  The dimensions the two kernels above resolve to, and buffers of the sizes of the
  tensors for given dimensions: Query and Output of batch x seq_q x heads x head_size
  bytes, Key and Value of batch x seq_k x heads x head_size bytes, the mask and the scales
  of Key and Value of batch x seq_k floats, the scales of Query and Output of
  batch x seq_q floats, a workspace of \<open>ws\<close> bytes, and 4 bytes behind every other slot.
\<close>

definition static_dims :: dims where
  "static_dims = \<lparr>batch_size = 1, head_num = 2, head_size = 32, dim_M = 16, dim_N = 20\<rparr>"

definition dynamic_dims :: dims where
  "dynamic_dims = \<lparr>batch_size = 2, head_num = 1, head_size = 64, dim_M = 16, dim_N = 16\<rparr>"

definition tensor_extents :: "dims \<Rightarrow> int \<Rightarrow> extents" where
  "tensor_extents d ws b =
     (if b = SRC_Q \<or> b = DST then batch_size d * dim_M d * head_num d * head_size d
      else if b = SRC_K \<or> b = SRC_V then batch_size d * dim_N d * head_num d * head_size d
      else if b = BINARY_ADD \<or> b = K_SCALE \<or> b = V_SCALE then 4 * (batch_size d * dim_N d)
      else if b = Q_SCALE \<or> b = DST_SCALE then 4 * (batch_size d * dim_M d)
      else if b = WORKSPACE then ws
      else 4)"

section \<open>Properties\<close>

subsection \<open>Rounding up\<close>

lemma pad_to_mono: "0 < c \<Longrightarrow> x \<le> y \<Longrightarrow> pad_to x c \<le> pad_to y c"
  unfolding pad_to_def by (intro mult_right_mono zdiv_mono1) auto

lemma pad_to_ge: "0 < c \<Longrightarrow> x \<le> pad_to x c"
proof -
  assume c: "0 < c"
  have "(x + c - 1) mod c < c" using c by simp
  moreover have "(x + c - 1) div c * c + (x + c - 1) mod c = x + c - 1" by simp
  ultimately show ?thesis unfolding pad_to_def by linarith
qed

lemma pad_to_nonneg: "0 < c \<Longrightarrow> 0 \<le> x \<Longrightarrow> 0 \<le> pad_to x c"
  using pad_to_ge [of c x] by linarith

lemma pad_to_dvd: "c dvd pad_to x c"
  by (simp add: pad_to_def)

lemma pad_to_lt: "0 < c \<Longrightarrow> pad_to x c < x + c"
proof -
  assume c: "0 < c"
  have "0 \<le> (x + c - 1) mod c" using c by simp
  moreover have "(x + c - 1) div c * c + (x + c - 1) mod c = x + c - 1" by simp
  ultimately show ?thesis unfolding pad_to_def by linarith
qed

lemma pad_to_id: "0 < c \<Longrightarrow> c dvd x \<Longrightarrow> pad_to x c = x"
proof -
  assume c: "0 < c" and d: "c dvd x"
  then obtain q where x: "x = q * c" by (auto simp: dvd_def mult.commute)
  have "(q * c + c - 1) div c = q"
  proof -
    have "q * c + c - 1 = (c - 1) + q * c" by simp
    also have "\<dots> div c = (c - 1) div c + q" using c by (subst div_mult_self1) auto
    also have "(c - 1) div c = 0" using c by (simp add: div_pos_pos_trivial)
    finally show ?thesis by simp
  qed
  then show ?thesis by (simp add: pad_to_def x)
qed

lemma pad_to_eq_iff: "0 < c \<Longrightarrow> pad_to x c = x \<longleftrightarrow> c dvd x"
  using pad_to_id [of c x] pad_to_dvd [of c x] by auto

lemma multiple_le:
  fixes a c k :: int
  assumes "k dvd a" "k dvd c" "a < c + k" "0 < k"
  shows "a \<le> c"
proof -
  from assms(1,2) have "k dvd (a - c)" by (rule dvd_diff)
  then obtain q where q: "a - c = k * q" by (auto simp: dvd_def)
  with assms(3) have "k * q < k * 1" by simp
  with assms(4) have "q < 1" by (simp only: mult_less_cancel_left_pos)
  then have "k * q \<le> 0" using assms(4) by (simp add: mult_le_0_iff)
  with q show ?thesis by simp
qed

lemma pad_to_16_le_64: "pad_to x 16 \<le> pad_to x 64"
proof (rule multiple_le [where k = 16])
  show "16 dvd pad_to x 16" by (rule pad_to_dvd)
  have "64 dvd pad_to x 64" by (rule pad_to_dvd)
  then show "16 dvd pad_to x 64" by (rule dvd_trans [rotated]) simp
  show "pad_to x 16 < pad_to x 64 + 16"
    using pad_to_lt [of 16 x] pad_to_ge [of 64 x] by simp
qed simp

lemma pad_to_4_le_64: "pad_to x 4 \<le> pad_to x 64"
proof (rule multiple_le [where k = 4])
  show "4 dvd pad_to x 4" by (rule pad_to_dvd)
  have "64 dvd pad_to x 64" by (rule pad_to_dvd)
  then show "4 dvd pad_to x 64" by (rule dvd_trans [rotated]) simp
  show "pad_to x 4 < pad_to x 64 + 4"
    using pad_to_lt [of 4 x] pad_to_ge [of 64 x] by simp
qed simp

lemma pad_to_64_le_16: "pad_to x 64 \<le> pad_to x 16 + 48"
proof (rule multiple_le [where k = 16])
  have "64 dvd pad_to x 64" by (rule pad_to_dvd)
  then show "16 dvd pad_to x 64" by (rule dvd_trans [rotated]) simp
  have "16 dvd pad_to x 16" by (rule pad_to_dvd)
  then show "16 dvd pad_to x 16 + 48" by (rule dvd_add) simp
  show "pad_to x 64 < pad_to x 16 + 48 + 16"
    using pad_to_lt [of 64 x] pad_to_ge [of 16 x] by simp
qed simp

lemma pad_to_pos: 
  assumes "0 < c" "0 < x" shows "c \<le> pad_to x c"
proof -
  have "0 < pad_to x c" using pad_to_ge [OF assms(1), of x] assms(2) by simp
  then show ?thesis using pad_to_dvd [of c x] by (intro zdvd_imp_le) auto
qed

lemma pad_to_16_pos: "0 < x \<Longrightarrow> 16 \<le> pad_to x 16"
  by (rule pad_to_pos) simp_all

lemma pad_to_64_pos: "0 < x \<Longrightarrow> 64 \<le> pad_to x 64"
  by (rule pad_to_pos) simp_all

subsection \<open>The size of the workspace\<close>

lemma get_workspace_size_word:
  "get_workspace_size k T =
     word_of_int (spec_workspace_size (batch_size_m k) (head_num_m k) (N_m k) (head_size_m k) T)"
  by (simp add: get_workspace_size_def spec_workspace_size_def mask_bytes_def kv_bytes_def
      v_scale_bytes_def softmax_scratch_bytes_def algebra_simps)

lemma get_workspace_size_uint:
  assumes "0 \<le> spec_workspace_size (batch_size_m k) (head_num_m k) (N_m k) (head_size_m k) T"
    and "spec_workspace_size (batch_size_m k) (head_num_m k) (N_m k) (head_size_m k) T < 2 ^ 64"
  shows "uint (get_workspace_size k T) =
     spec_workspace_size (batch_size_m k) (head_num_m k) (N_m k) (head_size_m k) T"
  using assms by (simp add: get_workspace_size_word uint_word_of_int take_bit_int_eq_self)

lemma spec_workspace_size_mono:
  assumes "0 \<le> b" "b \<le> b'" "0 \<le> h" "h \<le> h'" "0 \<le> n" "n \<le> n'" "0 \<le> s" "s \<le> s'"
    "0 \<le> T" "T \<le> T'"
  shows "spec_workspace_size b h n s T \<le> spec_workspace_size b' h' n' s' T'"
proof -
  have pn: "0 \<le> pad_to n 64" "pad_to n 64 \<le> pad_to n' 64"
    using assms by (simp_all add: pad_to_nonneg pad_to_mono)
  have ps: "0 \<le> pad_to s 64" "pad_to s 64 \<le> pad_to s' 64"
    using assms by (simp_all add: pad_to_nonneg pad_to_mono)
  have bh: "0 \<le> b * h" "b * h \<le> b' * h'"
    using assms by (simp_all add: mult_mono)
  have 1: "b * pad_to n 64 \<le> b' * pad_to n' 64"
    using assms pn by (auto intro: mult_mono)
  have pp: "0 \<le> pad_to n 64 * pad_to s 64"
    "pad_to n 64 * pad_to s 64 \<le> pad_to n' 64 * pad_to s' 64"
    using pn ps by (simp_all add: mult_mono)
  have 2: "b * h * (pad_to n 64 * pad_to s 64) \<le> b' * h' * (pad_to n' 64 * pad_to s' 64)"
    using bh pp by (auto intro: mult_mono)
  have 3: "b * h * pad_to s 64 \<le> b' * h' * pad_to s' 64"
    using bh ps by (auto intro: mult_mono)
  have th: "0 \<le> T * h" "T * h \<le> T' * h'"
    using assms by (simp_all add: mult_mono)
  have 4: "T * h * pad_to n 64 \<le> T' * h' * pad_to n' 64"
    using th pn by (auto intro: mult_mono)
  show ?thesis
    using 1 2 3 4
    by (simp add: spec_workspace_size_def mask_bytes_def kv_bytes_def
        v_scale_bytes_def softmax_scratch_bytes_def mult.assoc)
qed

lemma spec_workspace_size_nonneg:
  assumes "0 \<le> b" "0 \<le> h" "0 \<le> n" "0 \<le> s" "0 \<le> T"
  shows "0 \<le> spec_workspace_size b h n s T"
  using assms
  by (simp add: spec_workspace_size_def mask_bytes_def kv_bytes_def v_scale_bytes_def
      softmax_scratch_bytes_def pad_to_nonneg)

text \<open>
  C2, as amended. \<^verbatim>\<open>get_workspace_size\<close> has no access to the call. When the \<^verbatim>\<open>int\<close> values
  it computes are representable, so that no signed arithmetic overflows (the five
  members, the thread count, \<^verbatim>\<open>N_ + 63\<close>, \<^verbatim>\<open>head_size_ + 63\<close> and the product
  \<^verbatim>\<open>pad_to(N_, 64) * pad_to(head_size_, 64)\<close>), it returns the sum
  \<open>mask_bytes + kv_bytes + v_scale_bytes + softmax_scratch_bytes\<close> of the specification,
  modulo \<open>2^64\<close>, at the members set by the constructor and the maximum thread count, and
  exactly that sum when it is at least 0 and below \<open>2^64\<close>. A dimension declared dynamic
  enters as 0. When batch, heads, seq_k and head_size are all declared positive, the
  members are the dimensions every call resolves, so that the sum is the one at the
  resolved dimensions.
\<close>

theorem get_workspace_size_at_members:
  assumes "size_ints_defined k max_threads"
  shows
    "get_workspace_size k max_threads =
       word_of_int (spec_workspace_size (batch_size_m k) (head_num_m k) (N_m k)
         (head_size_m k) max_threads) \<and>
     (0 \<le> spec_workspace_size (batch_size_m k) (head_num_m k) (N_m k) (head_size_m k)
             max_threads \<and>
      spec_workspace_size (batch_size_m k) (head_num_m k) (N_m k) (head_size_m k)
             max_threads < 2 ^ 64 \<longrightarrow>
      uint (get_workspace_size k max_threads) =
        spec_workspace_size (batch_size_m k) (head_num_m k) (N_m k) (head_size_m k)
          max_threads) \<and>
     (0 < batch_size_m k \<and> 0 < head_num_m k \<and> 0 < N_m k \<and> 0 < head_size_m k \<longrightarrow>
      get_workspace_size k max_threads =
        word_of_int (spec_workspace_size (batch_size (resolve_dims k m))
          (head_num (resolve_dims k m)) (dim_N (resolve_dims k m))
          (head_size (resolve_dims k m)) max_threads))"
proof (intro conjI impI)
  show "get_workspace_size k max_threads =
       word_of_int (spec_workspace_size (batch_size_m k) (head_num_m k) (N_m k)
         (head_size_m k) max_threads)"
    by (rule get_workspace_size_word)
next
  assume "0 \<le> spec_workspace_size (batch_size_m k) (head_num_m k) (N_m k) (head_size_m k)
             max_threads \<and>
      spec_workspace_size (batch_size_m k) (head_num_m k) (N_m k) (head_size_m k)
             max_threads < 2 ^ 64"
  then show "uint (get_workspace_size k max_threads) =
        spec_workspace_size (batch_size_m k) (head_num_m k) (N_m k) (head_size_m k)
          max_threads"
    by (intro get_workspace_size_uint) auto
next
  assume "0 < batch_size_m k \<and> 0 < head_num_m k \<and> 0 < N_m k \<and> 0 < head_size_m k"
  then show "get_workspace_size k max_threads =
        word_of_int (spec_workspace_size (batch_size (resolve_dims k m))
          (head_num (resolve_dims k m)) (dim_N (resolve_dims k m))
          (head_size (resolve_dims k m)) max_threads)"
    by (simp add: get_workspace_size_word resolve_dims_def)
qed

theorem get_workspace_size_at_members_witness:
  "size_ints_defined static_kernel 4 \<and>
   get_workspace_size static_kernel 4 = 49920 \<and>
   uint (get_workspace_size static_kernel 4) = spec_workspace_size 1 2 20 32 4 \<and>
   get_workspace_size static_kernel 4 =
     word_of_int (spec_workspace_size (batch_size (resolve_dims static_kernel batch_2_memory))
       (head_num (resolve_dims static_kernel batch_2_memory))
       (dim_N (resolve_dims static_kernel batch_2_memory))
       (head_size (resolve_dims static_kernel batch_2_memory)) 4)"
proof -
  have d: "size_ints_defined static_kernel 4"
    by (simp add: size_ints_defined_def static_kernel_def int32_def pad_to_def)
  show ?thesis
    using d get_workspace_size_at_members [OF d, of batch_2_memory]
    by (simp add: static_kernel_def resolve_dims_def spec_workspace_size_def mask_bytes_def
        kv_bytes_def v_scale_bytes_def softmax_scratch_bytes_def pad_to_def)
qed

text \<open>
  C2 as stated fails for a dimension declared dynamic: with the batch size left to the
  call and resolved to 2 there, \<^verbatim>\<open>get_workspace_size\<close> is 4096, not the 21504 of the sum at
  the resolved dimensions.
\<close>

theorem get_workspace_size_dynamic_counterexample:
  "size_ints_defined dynamic_batch_kernel 1 \<and>
   batch_size (resolve_dims dynamic_batch_kernel batch_2_memory) = 2 \<and>
   get_workspace_size dynamic_batch_kernel 1 = 4096 \<and>
   spec_workspace_size (batch_size (resolve_dims dynamic_batch_kernel batch_2_memory))
     (head_num (resolve_dims dynamic_batch_kernel batch_2_memory))
     (dim_N (resolve_dims dynamic_batch_kernel batch_2_memory))
     (head_size (resolve_dims dynamic_batch_kernel batch_2_memory)) 1 = 21504 \<and>
   get_workspace_size dynamic_batch_kernel 1 \<noteq>
     word_of_int (spec_workspace_size
       (batch_size (resolve_dims dynamic_batch_kernel batch_2_memory))
       (head_num (resolve_dims dynamic_batch_kernel batch_2_memory))
       (dim_N (resolve_dims dynamic_batch_kernel batch_2_memory))
       (head_size (resolve_dims dynamic_batch_kernel batch_2_memory)) 1)"
  by (simp add: size_ints_defined_def int32_def dynamic_batch_kernel_def batch_2_memory_def
      resolve_dims_def load_int32_def ptr_add_def get_workspace_size_def
      spec_workspace_size_def mask_bytes_def kv_bytes_def v_scale_bytes_def
      softmax_scratch_bytes_def pad_to_def)

text \<open>
  C4, as amended. With a positive thread count, \<^verbatim>\<open>get_workspace_size\<close> does not decrease
  when any of the five dimensions grows, from positive values, provided that the \<^verbatim>\<open>int\<close>
  values it computes are representable at the smaller and at the larger dimensions, so
  that no signed arithmetic overflows (the five members, the thread count, \<^verbatim>\<open>N_ + 63\<close>,
  \<^verbatim>\<open>head_size_ + 63\<close> and the product \<^verbatim>\<open>pad_to(N_, 64) * pad_to(head_size_, 64)\<close>), and that the
  sum at the larger dimensions is below \<open>2^64\<close>, so that the \<^verbatim>\<open>size_t\<close> arithmetic does not
  wrap around. (The dimensions may grow together; one at a time is the case where the
  others are equal. The size does not depend on seq_q.)
\<close>

theorem get_workspace_size_monotone:
  assumes "size_ints_defined k max_threads" and "size_ints_defined k' max_threads"
    and "0 < batch_size_m k" "0 < head_num_m k" "0 < M_m k" "0 < N_m k" "0 < head_size_m k"
    and "batch_size_m k \<le> batch_size_m k'" "head_num_m k \<le> head_num_m k'"
      "M_m k \<le> M_m k'" "N_m k \<le> N_m k'" "head_size_m k \<le> head_size_m k'"
    and "0 < max_threads"
    and "spec_workspace_size (batch_size_m k') (head_num_m k') (N_m k') (head_size_m k')
           max_threads < 2 ^ 64"
  shows "get_workspace_size k max_threads \<le> get_workspace_size k' max_threads"
proof -
  let ?s = "spec_workspace_size (batch_size_m k) (head_num_m k) (N_m k) (head_size_m k)
    max_threads"
  let ?s' = "spec_workspace_size (batch_size_m k') (head_num_m k') (N_m k') (head_size_m k')
    max_threads"
  have le: "?s \<le> ?s'"
    using assms by (intro spec_workspace_size_mono) auto
  have nn: "0 \<le> ?s"
    using assms by (intro spec_workspace_size_nonneg) auto
  have "uint (get_workspace_size k max_threads) = ?s"
    using nn le assms(14) by (intro get_workspace_size_uint) auto
  moreover have "uint (get_workspace_size k' max_threads) = ?s'"
    using nn le assms(14) by (intro get_workspace_size_uint) auto
  ultimately show ?thesis
    using le by (simp add: word_le_def)
qed

theorem get_workspace_size_monotone_witness:
  "get_workspace_size (dynamic_batch_kernel\<lparr>batch_size_m := 1\<rparr>) 4 \<le>
   get_workspace_size (static_kernel\<lparr>head_size_m := 64\<rparr>) 4"
proof -
  have 1: "size_ints_defined (dynamic_batch_kernel\<lparr>batch_size_m := 1\<rparr>) 4"
    by (simp add: size_ints_defined_def dynamic_batch_kernel_def int32_def pad_to_def)
  have 2: "size_ints_defined (static_kernel\<lparr>head_size_m := 64\<rparr>) 4"
    by (simp add: size_ints_defined_def static_kernel_def int32_def pad_to_def)
  show ?thesis
    by (rule get_workspace_size_monotone [OF 1 2])
      (simp_all add: dynamic_batch_kernel_def static_kernel_def spec_workspace_size_def
        mask_bytes_def kv_bytes_def v_scale_bytes_def softmax_scratch_bytes_def pad_to_def)
qed

text \<open>
  C4 as stated fails where the \<^verbatim>\<open>size_t\<close> sum wraps around: of two kernels with positive
  dimensions that differ in the batch size only, 4096 and 8192, the larger has the
  smaller workspace size, because its Key and Value term is \<open>2^64\<close>.
\<close>

theorem get_workspace_size_monotone_counterexample:
  "size_ints_defined batch_4096_kernel 1 \<and> size_ints_defined batch_8192_kernel 1 \<and>
   0 < batch_size_m batch_4096_kernel \<and>
   batch_size_m batch_4096_kernel \<le> batch_size_m batch_8192_kernel \<and>
   0 < head_num_m batch_4096_kernel \<and>
   head_num_m batch_4096_kernel = head_num_m batch_8192_kernel \<and>
   0 < M_m batch_4096_kernel \<and> M_m batch_4096_kernel = M_m batch_8192_kernel \<and>
   0 < N_m batch_4096_kernel \<and> N_m batch_4096_kernel = N_m batch_8192_kernel \<and>
   0 < head_size_m batch_4096_kernel \<and>
   head_size_m batch_4096_kernel = head_size_m batch_8192_kernel \<and>
   get_workspace_size batch_8192_kernel 1 < get_workspace_size batch_4096_kernel 1"
  by (simp add: size_ints_defined_def int32_def batch_4096_kernel_def batch_8192_kernel_def
      get_workspace_size_def pad_to_def)

subsection \<open>The dimensions of a call\<close>

text \<open>
  C7. For each of batch, heads, seq_q, head_size and seq_k: when the member is 0,
  \<^verbatim>\<open>execute\<close> works with the \<^verbatim>\<open>int32_t\<close> it reads from the slot \<^verbatim>\<open>BATCH_SIZE\<close>, \<^verbatim>\<open>HEAD_NUM\<close>,
  \<^verbatim>\<open>M\<close>, \<^verbatim>\<open>HEAD_SIZE\<close>, \<^verbatim>\<open>N\<close> respectively; when the member is positive, with the member,
  whatever the slot holds. The members reach \<^verbatim>\<open>execute\<close> through these values only.
\<close>

theorem execute_dimension_override:
  "(batch_size_m k = 0 \<longrightarrow> batch_size (resolve_dims k m) = load_int32 m (BATCH_SIZE, 0)) \<and>
   (head_num_m k = 0 \<longrightarrow> head_num (resolve_dims k m) = load_int32 m (HEAD_NUM, 0)) \<and>
   (M_m k = 0 \<longrightarrow> dim_M (resolve_dims k m) = load_int32 m (io_M, 0)) \<and>
   (head_size_m k = 0 \<longrightarrow> head_size (resolve_dims k m) = load_int32 m (HEAD_SIZE, 0)) \<and>
   (N_m k = 0 \<longrightarrow> dim_N (resolve_dims k m) = load_int32 m (io_N, 0)) \<and>
   (0 < batch_size_m k \<longrightarrow> batch_size (resolve_dims k m) = batch_size_m k) \<and>
   (0 < head_num_m k \<longrightarrow> head_num (resolve_dims k m) = head_num_m k) \<and>
   (0 < M_m k \<longrightarrow> dim_M (resolve_dims k m) = M_m k) \<and>
   (0 < head_size_m k \<longrightarrow> head_size (resolve_dims k m) = head_size_m k) \<and>
   (0 < N_m k \<longrightarrow> dim_N (resolve_dims k m) = N_m k) \<and>
   (resolve_dims k' (mem s) = resolve_dims k (mem s) \<longrightarrow>
      execute ext K thr max_threads k' s = execute ext K thr max_threads k s)"
proof -
  have "execute ext K thr max_threads k' s = execute ext K thr max_threads k s"
    if "resolve_dims k' (mem s) = resolve_dims k (mem s)"
    unfolding execute_def that ..
  then show ?thesis by (simp add: resolve_dims_def)
qed

theorem execute_dimension_override_witness:
  "batch_size (resolve_dims dynamic_batch_kernel batch_2_memory) = 2 \<and>
   load_int32 batch_2_memory (BATCH_SIZE, 0) = 2 \<and>
   head_num (resolve_dims dynamic_batch_kernel batch_2_memory) = 1 \<and>
   dim_M (resolve_dims dynamic_batch_kernel batch_2_memory) = 16 \<and>
   head_size (resolve_dims dynamic_batch_kernel batch_2_memory) = 64 \<and>
   dim_N (resolve_dims dynamic_batch_kernel batch_2_memory) = 16"
  using execute_dimension_override [of dynamic_batch_kernel batch_2_memory]
  by (simp add: dynamic_batch_kernel_def batch_2_memory_def load_int32_def ptr_add_def)

subsection \<open>Validation\<close>

lemma init_run_no_amx: "init_run False dt0 od = Inl no_amx_int8"
  by (simp add: init_run_def)

lemma init_run_approx_exp:
  "attrs od ''approx_exp'' \<noteq> Some ''True'' \<Longrightarrow>
   init_run True dt0 od = Inl (requires req_approx_exp)"
  by (auto simp add: init_run_def KERNEL_INIT_CHECK_def Let_def)

lemma init_run_stable_softmax:
  "attrs od ''approx_exp'' = Some ''True'' \<Longrightarrow> attrs od ''stable_softmax'' \<noteq> Some ''False'' \<Longrightarrow>
   init_run True dt0 od = Inl (requires req_stable_softmax)"
  by (auto simp add: init_run_def KERNEL_INIT_CHECK_def Let_def)

lemma init_run_checks:
  assumes "attrs od ''approx_exp'' = Some ''True''" and "attrs od ''stable_softmax'' = Some ''False''"
    and "4 \<le> length (get_tensor_shapes (tensor_descs od) SRC_Q)"
    and "2 \<le> length (get_tensor_shapes (tensor_descs od) SRC_K)"
  shows "init_run True dt0 od =
     dim_checks (get_tensor_shapes (tensor_descs od))
       (shape_checks (get_tensor_shapes (tensor_descs od))
         (empty_checks (get_tensor_shapes (tensor_descs od))
           (dtype_checks (get_tensor_dtypes dt0 (tensor_descs od)) (Inr ()))))"
  using assms by (simp add: init_run_def KERNEL_INIT_CHECK_def Let_def)

lemma KERNEL_INIT_CHECK_cases:
  "KERNEL_INIT_CHECK c f rest = Inl e \<longleftrightarrow> (\<not> f \<and> e = requires c) \<or> (f \<and> rest = Inl e)"
  by (auto simp: KERNEL_INIT_CHECK_def)

lemma KERNEL_INIT_CHECK_Inr: "KERNEL_INIT_CHECK c f rest = Inr u \<longleftrightarrow> f \<and> rest = Inr u"
  by (auto simp: KERNEL_INIT_CHECK_def)

lemma dim_checks_Inr:
  "dim_checks shapes rest = Inr u \<longleftrightarrow>
     (shapes SRC_Q ! 0 > 0 \<or> shapes BATCH_SIZE = [1]) \<and>
     (shapes SRC_Q ! 2 > 0 \<or> shapes HEAD_NUM = [1]) \<and>
     (shapes SRC_Q ! 1 > 0 \<or> shapes HEAD_SIZE = [1]) \<and>
     (shapes SRC_Q ! 3 > 0 \<or> shapes io_M = [1]) \<and>
     (shapes SRC_K ! 1 > 0 \<or> shapes io_N = [1]) \<and> rest = Inr u"
  by (simp add: dim_checks_def KERNEL_INIT_CHECK_Inr Let_def conj_ac)

lemma dim_checks_not_out_of_range:
  "dim_checks shapes rest = Inl out_of_range \<longleftrightarrow>
     (dim_checks shapes (Inr ()) = Inr () \<and> rest = Inl out_of_range)"
  by (auto simp add: dim_checks_def KERNEL_INIT_CHECK_def Let_def)

lemma shape_checks_not_out_of_range:
  "shape_checks shapes rest = Inl out_of_range \<longleftrightarrow>
     (shape_checks shapes (Inr ()) = Inr () \<and> rest = Inl out_of_range)"
  by (auto simp add: shape_checks_def KERNEL_INIT_CHECK_def Let_def)

lemma empty_checks_Inr:
  "empty_checks shapes rest = Inr u \<longleftrightarrow>
     shapes Q_ZP = [] \<and> shapes K_ZP = [] \<and> shapes V_ZP = [] \<and> shapes DST_ZP = [] \<and>
     shapes SRC_DST_SCALE = [] \<and> shapes SRC_DST_ZP = [] \<and> rest = Inr u"
  by (simp add: empty_checks_def KERNEL_INIT_CHECK_Inr conj_ac)

lemma dtype_checks_Inr:
  "dtype_checks dtypes rest = Inr u \<longleftrightarrow>
     dtypes SRC_Q = s8 \<and> dtypes SRC_K = s8 \<and> dtypes SRC_V = s8 \<and> dtypes DST = s8 \<and>
     dtypes BINARY_ADD = fp32 \<and> dtypes Q_SCALE = fp32 \<and> dtypes K_SCALE = fp32 \<and>
     dtypes V_SCALE = fp32 \<and> dtypes DST_SCALE = fp32 \<and> rest = Inr u"
  by (simp add: dtype_checks_def KERNEL_INIT_CHECK_Inr is_all_of_def conj_ac)

lemma shape_checks_Inr_rest: "shape_checks shapes rest = Inr u \<Longrightarrow> rest = Inr u"
  by (simp add: shape_checks_def KERNEL_INIT_CHECK_Inr Let_def)

lemma checks_never_out_of_range:
  "dim_checks shapes (shape_checks shapes (empty_checks shapes (dtype_checks dtypes (Inr ()))))
     \<noteq> Inl out_of_range"
  by (auto simp add: dim_checks_def shape_checks_def empty_checks_def dtype_checks_def
      KERNEL_INIT_CHECK_def Let_def)

text \<open>
  With a Query shape of at least four entries and a Key shape of at least two,
  \<^verbatim>\<open>init\<close> returns false in each of the cases that C6 lists.
\<close>

lemma init_rejects_in_range:
  assumes "4 \<le> length (get_tensor_shapes (tensor_descs od) SRC_Q)"
    and "2 \<le> length (get_tensor_shapes (tensor_descs od) SRC_K)"
    and "\<not> amx \<or> attrs od ''approx_exp'' \<noteq> Some ''True'' \<or>
         attrs od ''stable_softmax'' \<noteq> Some ''False'' \<or>
         get_tensor_shapes (tensor_descs od) Q_ZP \<noteq> [] \<or>
         get_tensor_shapes (tensor_descs od) K_ZP \<noteq> [] \<or>
         get_tensor_shapes (tensor_descs od) V_ZP \<noteq> [] \<or>
         get_tensor_shapes (tensor_descs od) DST_ZP \<noteq> [] \<or>
         get_tensor_shapes (tensor_descs od) SRC_DST_SCALE \<noteq> [] \<or>
         get_tensor_shapes (tensor_descs od) SRC_DST_ZP \<noteq> [] \<or>
         get_tensor_dtypes dt0 (tensor_descs od) SRC_Q \<noteq> s8 \<or>
         get_tensor_dtypes dt0 (tensor_descs od) SRC_K \<noteq> s8 \<or>
         get_tensor_dtypes dt0 (tensor_descs od) SRC_V \<noteq> s8 \<or>
         get_tensor_dtypes dt0 (tensor_descs od) DST \<noteq> s8 \<or>
         get_tensor_dtypes dt0 (tensor_descs od) BINARY_ADD \<noteq> fp32 \<or>
         get_tensor_dtypes dt0 (tensor_descs od) Q_SCALE \<noteq> fp32 \<or>
         get_tensor_dtypes dt0 (tensor_descs od) K_SCALE \<noteq> fp32 \<or>
         get_tensor_dtypes dt0 (tensor_descs od) V_SCALE \<noteq> fp32 \<or>
         get_tensor_dtypes dt0 (tensor_descs od) DST_SCALE \<noteq> fp32"
  shows "init amx dt0 od = Some False"
proof (cases "amx \<and> attrs od ''approx_exp'' = Some ''True'' \<and>
         attrs od ''stable_softmax'' = Some ''False''")
  case False
  then consider "\<not> amx" | "amx" "attrs od ''approx_exp'' \<noteq> Some ''True''"
    | "amx" "attrs od ''approx_exp'' = Some ''True''" "attrs od ''stable_softmax'' \<noteq> Some ''False''"
    by blast
  then show ?thesis
  proof cases
    case 1 then show ?thesis by (simp add: init_def init_run_no_amx)
  next
    case 2 then show ?thesis by (simp add: init_def init_run_approx_exp)
  next
    case 3 then show ?thesis by (simp add: init_def init_run_stable_softmax)
  qed
next
  case True
  let ?r = "dim_checks (get_tensor_shapes (tensor_descs od))
       (shape_checks (get_tensor_shapes (tensor_descs od))
         (empty_checks (get_tensor_shapes (tensor_descs od))
           (dtype_checks (get_tensor_dtypes dt0 (tensor_descs od)) (Inr ()))))"
  have run: "init_run amx dt0 od = ?r"
    using True assms(1,2) init_run_checks [of od dt0] by simp
  have "?r \<noteq> Inr ()"
  proof
    assume "?r = Inr ()"
    then have "empty_checks (get_tensor_shapes (tensor_descs od))
           (dtype_checks (get_tensor_dtypes dt0 (tensor_descs od)) (Inr ())) = Inr ()"
      by (auto simp: dim_checks_Inr dest: shape_checks_Inr_rest)
    then show False
      using assms(3) True by (simp add: empty_checks_Inr dtype_checks_Inr)
  qed
  moreover have "?r \<noteq> Inl out_of_range" by (rule checks_never_out_of_range)
  ultimately show ?thesis
    unfolding init_def run by (cases ?r) (auto split: init_stop.splits)
qed


text \<open>
  The first failed check ends \<^verbatim>\<open>init\<close>: the hardware test comes first, then the two
  attributes; after the checks of the dimensions and shapes, the six slots that must be
  empty, in the order of lines 73 to 78; then the two checks of the element types.
\<close>

lemma dim_checks_pass:
  assumes "dim_checks shapes (Inr u) = Inr u"
  shows "dim_checks shapes rest = rest"
proof -
  have "KERNEL_INIT_CHECK c True r = r" for c r
    by (simp add: KERNEL_INIT_CHECK_def)
  moreover from assms have
    "(shapes SRC_Q ! 0 > 0 \<or> shapes BATCH_SIZE = [1]) = True"
    "(shapes SRC_Q ! 2 > 0 \<or> shapes HEAD_NUM = [1]) = True"
    "(shapes SRC_Q ! 1 > 0 \<or> shapes HEAD_SIZE = [1]) = True"
    "(shapes SRC_Q ! 3 > 0 \<or> shapes io_M = [1]) = True"
    "(shapes SRC_K ! 1 > 0 \<or> shapes io_N = [1]) = True"
    by (simp_all add: dim_checks_Inr)
  ultimately show ?thesis
    unfolding dim_checks_def Let_def by (simp only:)
qed

lemma shape_checks_pass:
  assumes "shape_checks shapes (Inr u) = Inr u"
  shows "shape_checks shapes rest = rest"
proof -
  have "KERNEL_INIT_CHECK c True r = r" for c r
    by (simp add: KERNEL_INIT_CHECK_def)
  moreover from assms have
    "(shapes SRC_Q = [shapes SRC_Q ! 0, shapes SRC_Q ! 1, shapes SRC_Q ! 2, shapes SRC_Q ! 3]) = True"
    "(shapes SRC_K = [shapes SRC_Q ! 0, shapes SRC_K ! 1, shapes SRC_Q ! 2, shapes SRC_Q ! 3]) = True"
    "(shapes SRC_V = [shapes SRC_Q ! 0, shapes SRC_K ! 1, shapes SRC_Q ! 2, shapes SRC_Q ! 3]) = True"
    "(shapes DST = [shapes SRC_Q ! 0, shapes SRC_Q ! 1, shapes SRC_Q ! 2, shapes SRC_Q ! 3]) = True"
    "(shapes BINARY_ADD = [shapes SRC_Q ! 0, 1, 1, shapes SRC_K ! 1]) = True"
    "(shapes Q_SCALE = [shapes SRC_Q ! 0, shapes SRC_Q ! 1]) = True"
    "(shapes K_SCALE = [shapes SRC_Q ! 0, shapes SRC_K ! 1]) = True"
    "(shapes V_SCALE = [shapes SRC_Q ! 0, shapes SRC_K ! 1]) = True"
    "(shapes DST_SCALE = [shapes SRC_Q ! 0, shapes SRC_Q ! 1]) = True"
    unfolding shape_checks_def Let_def KERNEL_INIT_CHECK_Inr by (simp_all only: simp_thms)
  ultimately show ?thesis
    unfolding shape_checks_def Let_def by (simp only:)
qed

lemma init_run_empty_checks_first:
  assumes "attrs od ''approx_exp'' = Some ''True''" and "attrs od ''stable_softmax'' = Some ''False''"
    and "4 \<le> length (get_tensor_shapes (tensor_descs od) SRC_Q)"
    and "2 \<le> length (get_tensor_shapes (tensor_descs od) SRC_K)"
    and "dim_checks (get_tensor_shapes (tensor_descs od)) (Inr ()) = Inr ()"
    and "shape_checks (get_tensor_shapes (tensor_descs od)) (Inr ()) = Inr ()"
    and "get_tensor_shapes (tensor_descs od) Q_ZP \<noteq> []"
  shows "init_run True dt0 od = Inl (requires (req_empty Q_ZP))"
proof -
  have "init_run True dt0 od =
      empty_checks (get_tensor_shapes (tensor_descs od))
        (dtype_checks (get_tensor_dtypes dt0 (tensor_descs od)) (Inr ()))"
    using assms(1-4) by (simp add: init_run_checks dim_checks_pass [OF assms(5)]
        shape_checks_pass [OF assms(6)])
  then show ?thesis
    using assms(7) by (simp add: empty_checks_def KERNEL_INIT_CHECK_def)
qed

text \<open>
  C1. The code departs from the claim for seq_q and head_size, whose checks at lines 57
  and 58 test each other's slot (\<^verbatim>\<open>execute\<close>, lines 152 and 153, reads each dimension from
  its own slot). A descriptor with seq_q = 0 and the singleton in its own slot \<^verbatim>\<open>io::M\<close>
  is rejected at the check of \<^verbatim>\<open>M\<close>; with the singleton in \<^verbatim>\<open>io::HEAD_SIZE\<close> and nothing in
  \<^verbatim>\<open>io::M\<close>, it is accepted.
\<close>

theorem init_dynamic_M_checks_other_slot:
  "get_tensor_shapes (tensor_descs dynamic_M_desc) SRC_Q ! 1 = 0 \<and>
   get_tensor_shapes (tensor_descs dynamic_M_desc) io_M = [1] \<and>
   init_run True dt0 dynamic_M_desc = Inl (requires req_M) \<and>
   init True dt0 dynamic_M_desc = Some False \<and>
   get_tensor_shapes (tensor_descs misplaced_M_desc) SRC_Q ! 1 = 0 \<and>
   get_tensor_shapes (tensor_descs misplaced_M_desc) io_M = [] \<and>
   get_tensor_shapes (tensor_descs misplaced_M_desc) HEAD_SIZE = [1] \<and>
   init True dt0 misplaced_M_desc = Some True"
  by (simp add: init_def init_run_def KERNEL_INIT_CHECK_def dim_checks_def shape_checks_def
      empty_checks_def dtype_checks_def is_all_of_def get_tensor_shapes_def
      get_tensor_dtypes_def dynamic_M_desc_def misplaced_M_desc_def good_attrs_def)

text \<open>
  C6. The code departs from the claim for a descriptor whose Query shape has fewer than
  four entries (or whose Key shape has fewer than two): on the right hardware and with
  the two attributes as required, lines 49 to 53 read beyond the end of the shape before
  any check of it, although a zero-point slot is not empty. \<^verbatim>\<open>init\<close> does not return
  false there; its behaviour is undefined.
\<close>

theorem init_short_query_out_of_range:
  "get_tensor_shapes (tensor_descs short_query_desc) Q_ZP \<noteq> [] \<and>
   get_tensor_shapes (tensor_descs short_query_desc) SRC_Q = [] \<and>
   init_run True dt0 short_query_desc = Inl out_of_range \<and>
   init True dt0 short_query_desc = None"
  by (simp add: init_def init_run_def KERNEL_INIT_CHECK_def get_tensor_shapes_def
      short_query_desc_def good_attrs_def)

subsection \<open>The partition of the workspace\<close>

lemma snd_tmp_end:
  "snd (tmp_end d T) =
     4 * (batch_size d * N_pad16 d) +
     batch_size d * head_num d * (head_size_pad64 d * N_pad16 d) +
     batch_size d * head_num d * (N_pad64 d * head_size_pad16 d) +
     4 * (batch_size d * head_num d * head_size_pad16 d) +
     T * (head_num d * 16 * N_pad64 d)"
  by (simp add: tmp_end_def tmp_threads_def tmp_v_scale_def tmp_v_def tmp_k_def workspace_def
      ptr_add_def tmp_mask_size_def head_tmp_k_size_def head_tmp_v_size_def
      head_tmp_v_scale_size_def tmp_thread_size_def)

lemma tmp_end_le_spec:
  assumes "0 < batch_size d" "0 < head_num d" "0 < head_size d" "0 < dim_N d" "0 \<le> T"
  shows "snd (tmp_end d T) \<le>
     spec_workspace_size (batch_size d) (head_num d) (dim_N d) (head_size d) T"
proof -
  define b h where "b = batch_size d" and "h = head_num d"
  define n16 n64 where "n16 = pad_to (dim_N d) 16" and "n64 = pad_to (dim_N d) 64"
  define s16 s64 where "s16 = pad_to (head_size d) 16" and "s64 = pad_to (head_size d) 64"
  have b: "0 < b" and h: "0 < h" using assms by (simp_all add: b_def h_def)
  have n: "0 < n16" "n16 \<le> n64"
    using pad_to_16_pos [OF assms(4)] pad_to_16_le_64 [of "dim_N d"] by (simp_all add: n16_def n64_def)
  have s: "0 < s16" "s16 \<le> s64"
    using pad_to_16_pos [OF assms(3)] pad_to_16_le_64 [of "head_size d"] by (simp_all add: s16_def s64_def)
  have bh: "0 \<le> b * h" using b h by simp
  have 1: "b * n16 \<le> b * n64" using b n by (intro mult_left_mono) auto
  have 2: "b * h * (s64 * n16) \<le> b * h * (n64 * s64)"
  proof -
    have "s64 * n16 \<le> s64 * n64" using s n by (intro mult_left_mono) auto
    then have "s64 * n16 \<le> n64 * s64" by (simp add: mult.commute)
    then show ?thesis using bh by (rule mult_left_mono)
  qed
  have 3: "b * h * (n64 * s16) \<le> b * h * (n64 * s64)"
  proof -
    have "n64 * s16 \<le> n64 * s64" using s n by (intro mult_left_mono) auto
    then show ?thesis using bh by (rule mult_left_mono)
  qed
  have 4: "b * h * s16 \<le> b * h * s64" using s bh by (intro mult_left_mono) auto
  have 5: "0 \<le> T * (h * 16 * n64)" using assms(5) h n by simp
  have "snd (tmp_end d T) = 4 * (b * n16) + b * h * (s64 * n16) + b * h * (n64 * s16) +
      4 * (b * h * s16) + T * (h * 16 * n64)"
    by (simp add: snd_tmp_end b_def h_def n16_def n64_def s16_def s64_def N_pad16_def N_pad64_def
        head_size_pad16_def head_size_pad64_def)
  moreover have "spec_workspace_size (batch_size d) (head_num d) (dim_N d) (head_size d) T =
      4 * (b * n64) + 2 * (b * h * (n64 * s64)) + 4 * (b * h * s64) + 4 * (T * (h * 16 * n64))"
    by (simp add: spec_workspace_size_def mask_bytes_def kv_bytes_def v_scale_bytes_def
        softmax_scratch_bytes_def b_def h_def n64_def s64_def)
  ultimately show ?thesis using 1 2 3 4 5 by linarith
qed

lemma one_le_mult:
  fixes a b :: int
  assumes "1 \<le> a" "1 \<le> b"
  shows "1 \<le> a * b"
proof -
  have "1 * 1 \<le> a * b" using assms by (intro mult_mono) auto
  then show ?thesis by simp
qed

lemma spec_lt_of_ints_defined:
  assumes "0 < batch_size d" "0 < head_num d" "0 < head_size d" "0 < dim_N d" "0 \<le> T"
    and "ints_defined d T"
  shows "spec_workspace_size (batch_size d) (head_num d) (dim_N d) (head_size d) T < 2 ^ 64"
proof -
  define b h where "b = batch_size d" and "h = head_num d"
  define n64 where "n64 = pad_to (dim_N d) 64"
  define s16 s64 where "s16 = pad_to (head_size d) 16" and "s64 = pad_to (head_size d) 64"
  define A where "A = b * h * (n64 * s16)"
  define B where "B = T * (h * 16 * n64)"
  have b: "1 \<le> b" and h: "1 \<le> h" using assms by (simp_all add: b_def h_def)
  have n: "1 \<le> n64" using pad_to_64_pos [OF assms(4)] by (simp add: n64_def)
  have s: "1 \<le> s16" "s64 \<le> 4 * s16"
    using pad_to_16_pos [OF assms(3)] pad_to_64_le_16 [of "head_size d"]
    by (simp_all add: s16_def s64_def)
  have A: "A < 2147483648" and B: "B < 2147483648"
    using assms(6)
    by (simp_all add: ints_defined_def int32_def A_def B_def b_def h_def n64_def s16_def
        head_tmp_v_size_def tmp_thread_size_def N_pad64_def head_size_pad16_def)
  have bh: "1 \<le> b * h" using b h by (rule one_le_mult)
  have bhn: "1 \<le> b * h * n64" using bh n by (rule one_le_mult)
  have 1: "b * n64 \<le> A"
  proof -
    have "1 \<le> h * s16" using h s(1) by (rule one_le_mult)
    moreover have "0 \<le> b * n64" using b n by simp
    ultimately have "(b * n64) * 1 \<le> (b * n64) * (h * s16)"
      by (intro mult_left_mono)
    moreover have "(b * n64) * (h * s16) = A" by (simp add: A_def)
    ultimately show ?thesis by simp
  qed
  have 2: "b * h * (n64 * s64) \<le> 4 * A"
  proof -
    have "(b * h * n64) * s64 \<le> (b * h * n64) * (4 * s16)"
      using s(2) bhn by (intro mult_left_mono) auto
    moreover have "(b * h * n64) * (4 * s16) = 4 * A" by (simp add: A_def)
    moreover have "(b * h * n64) * s64 = b * h * (n64 * s64)" by simp
    ultimately show ?thesis by simp
  qed
  have 3: "b * h * s64 \<le> 4 * A"
  proof -
    have "(b * h) * s64 \<le> (b * h) * (4 * s16)"
      using s(2) bh by (intro mult_left_mono) auto
    moreover have "((b * h) * (4 * s16)) * 1 \<le> ((b * h) * (4 * s16)) * n64"
      using bh s(1) n by (intro mult_left_mono) auto
    moreover have "((b * h) * (4 * s16)) * n64 = 4 * A" by (simp add: A_def)
    ultimately show ?thesis by simp
  qed
  have "spec_workspace_size (batch_size d) (head_num d) (dim_N d) (head_size d) T =
      4 * (b * n64) + 2 * (b * h * (n64 * s64)) + 4 * (b * h * s64) + 4 * B"
    by (simp add: spec_workspace_size_def mask_bytes_def kv_bytes_def v_scale_bytes_def
        softmax_scratch_bytes_def b_def h_def n64_def s64_def B_def)
  then have "spec_workspace_size (batch_size d) (head_num d) (dim_N d) (head_size d) T
      < 81604378624"
    using 1 2 3 A B by linarith
  then show ?thesis by simp
qed

lemma region_sizes_nonneg:
  assumes "0 < batch_size d" "0 < head_num d" "0 < head_size d" "0 < dim_N d" "0 \<le> T"
  shows "0 \<le> 4 * tmp_mask_size d"
    and "0 \<le> batch_size d * head_num d * head_tmp_k_size d"
    and "0 \<le> batch_size d * head_num d * head_tmp_v_size d"
    and "0 \<le> 4 * (batch_size d * head_num d * head_tmp_v_scale_size d)"
    and "0 \<le> T * tmp_thread_size d"
  using assms
  by (simp_all add: tmp_mask_size_def head_tmp_k_size_def head_tmp_v_size_def
      head_tmp_v_scale_size_def tmp_thread_size_def N_pad16_def N_pad64_def head_size_pad16_def
      head_size_pad64_def pad_to_nonneg)

text \<open>
  C3, as amended. For a kernel whose batch, heads, seq_k and head_size are declared
  positive (so that \<^verbatim>\<open>get_workspace_size\<close> sees the dimensions of the call), a positive
  thread count and \<^verbatim>\<open>int\<close> arithmetic that is defined, \<^verbatim>\<open>execute\<close> carves the workspace, from
  its start and in this order, into: the padded mask, of batch\<open>\<cdot>\<close>pad(seq_k,16) floats; the
  Key buffers, of pad(head_size,64)\<open>\<cdot>\<close>pad(seq_k,16) bytes per batch and head; the Value
  buffers, of pad(seq_k,64)\<open>\<cdot>\<close>pad(head_size,16) bytes per batch and head; the Value
  scales, of pad(head_size,16) floats per batch and head; and the scratch of the threads,
  of heads\<open>\<cdot>\<close>16\<open>\<cdot>\<close>pad(seq_k,64) bytes per thread. Each region starts where the one
  before it ends, and the last ends at or before the size \<^verbatim>\<open>get_workspace_size\<close> returns.
\<close>

theorem workspace_partition_fits:
  assumes "0 < batch_size_m k" "0 < head_num_m k" "0 < head_size_m k" "0 < N_m k"
    and "0 < max_threads"
    and "d = resolve_dims k m"
    and "ints_defined d max_threads"
  shows
    "workspace = (WORKSPACE, 0) \<and>
     tmp_k d = ptr_add 4 workspace (batch_size d * pad_to (dim_N d) 16) \<and>
     tmp_v d = ptr_add 1 (tmp_k d)
       (batch_size d * head_num d * (pad_to (head_size d) 64 * pad_to (dim_N d) 16)) \<and>
     tmp_v_scale d = ptr_add 1 (tmp_v d)
       (batch_size d * head_num d * (pad_to (dim_N d) 64 * pad_to (head_size d) 16)) \<and>
     tmp_threads d = ptr_add 4 (tmp_v_scale d)
       (batch_size d * head_num d * pad_to (head_size d) 16) \<and>
     tmp_end d max_threads = ptr_add 1 (tmp_threads d)
       (max_threads * (head_num d * 16 * pad_to (dim_N d) 64)) \<and>
     fst (tmp_end d max_threads) = WORKSPACE \<and>
     snd workspace \<le> snd (tmp_k d) \<and> snd (tmp_k d) \<le> snd (tmp_v d) \<and>
     snd (tmp_v d) \<le> snd (tmp_v_scale d) \<and> snd (tmp_v_scale d) \<le> snd (tmp_threads d) \<and>
     snd (tmp_threads d) \<le> snd (tmp_end d max_threads) \<and>
     snd (tmp_end d max_threads) \<le> uint (get_workspace_size k max_threads)"
proof -
  have d: "batch_size d = batch_size_m k" "head_num d = head_num_m k"
    "head_size d = head_size_m k" "dim_N d = N_m k"
    using assms(1-4,6) by (simp_all add: resolve_dims_def)
  have pos: "0 < batch_size d" "0 < head_num d" "0 < head_size d" "0 < dim_N d"
    "0 \<le> max_threads"
    using assms(1-5) d by simp_all
  note nn = region_sizes_nonneg [OF pos]
  have lt: "spec_workspace_size (batch_size d) (head_num d) (dim_N d) (head_size d) max_threads
      < 2 ^ 64"
    using pos assms(7) by (rule spec_lt_of_ints_defined)
  have le: "snd (tmp_end d max_threads) \<le>
      spec_workspace_size (batch_size d) (head_num d) (dim_N d) (head_size d) max_threads"
    using pos by (rule tmp_end_le_spec)
  have "0 \<le> spec_workspace_size (batch_size d) (head_num d) (dim_N d) (head_size d)
      max_threads"
    using pos by (intro spec_workspace_size_nonneg) auto
  with lt have u: "uint (get_workspace_size k max_threads) =
      spec_workspace_size (batch_size d) (head_num d) (dim_N d) (head_size d) max_threads"
    unfolding d by (intro get_workspace_size_uint) auto
  have fits: "snd (tmp_end d max_threads) \<le> uint (get_workspace_size k max_threads)"
    using le u by simp
  have order: "snd workspace \<le> snd (tmp_k d)" "snd (tmp_k d) \<le> snd (tmp_v d)"
    "snd (tmp_v d) \<le> snd (tmp_v_scale d)" "snd (tmp_v_scale d) \<le> snd (tmp_threads d)"
    "snd (tmp_threads d) \<le> snd (tmp_end d max_threads)"
    using nn
    by (simp_all add: tmp_k_def tmp_v_def tmp_v_scale_def tmp_threads_def tmp_end_def
        ptr_add_def)
  have eqs: "workspace = (WORKSPACE, 0)"
    "tmp_k d = ptr_add 4 workspace (batch_size d * pad_to (dim_N d) 16)"
    "tmp_v d = ptr_add 1 (tmp_k d)
       (batch_size d * head_num d * (pad_to (head_size d) 64 * pad_to (dim_N d) 16))"
    "tmp_v_scale d = ptr_add 1 (tmp_v d)
       (batch_size d * head_num d * (pad_to (dim_N d) 64 * pad_to (head_size d) 16))"
    "tmp_threads d = ptr_add 4 (tmp_v_scale d)
       (batch_size d * head_num d * pad_to (head_size d) 16)"
    "tmp_end d max_threads = ptr_add 1 (tmp_threads d)
       (max_threads * (head_num d * 16 * pad_to (dim_N d) 64))"
    "fst (tmp_end d max_threads) = WORKSPACE"
    by (simp_all add: workspace_def tmp_k_def tmp_v_def tmp_v_scale_def tmp_threads_def
        tmp_end_def tmp_mask_size_def head_tmp_k_size_def head_tmp_v_size_def
        head_tmp_v_scale_size_def tmp_thread_size_def N_pad16_def N_pad64_def
        head_size_pad16_def head_size_pad64_def ptr_add_def)
  show ?thesis
    using eqs order fits by (intro conjI)
qed


theorem workspace_partition_fits_witness:
  "ints_defined (resolve_dims static_kernel batch_2_memory) 4 \<and>
   tmp_k (resolve_dims static_kernel batch_2_memory) = (WORKSPACE, 128) \<and>
   tmp_v (resolve_dims static_kernel batch_2_memory) = (WORKSPACE, 4224) \<and>
   tmp_v_scale (resolve_dims static_kernel batch_2_memory) = (WORKSPACE, 8320) \<and>
   tmp_threads (resolve_dims static_kernel batch_2_memory) = (WORKSPACE, 8576) \<and>
   tmp_end (resolve_dims static_kernel batch_2_memory) 4 = (WORKSPACE, 16768) \<and>
   snd (tmp_end (resolve_dims static_kernel batch_2_memory) 4) \<le>
     uint (get_workspace_size static_kernel 4)"
proof -
  have i: "ints_defined (resolve_dims static_kernel batch_2_memory) 4"
    by (simp add: ints_defined_def int32_def static_kernel_def resolve_dims_def N_pad64_def
        tmp_mask_size_def head_tmp_k_size_def head_tmp_v_size_def head_tmp_v_scale_size_def
        tmp_thread_size_def N_pad16_def head_size_pad16_def head_size_pad64_def pad_to_def)
  have "0 < batch_size_m static_kernel" "0 < head_num_m static_kernel"
    "0 < head_size_m static_kernel" "0 < N_m static_kernel" "0 < (4::int)"
    by (simp_all add: static_kernel_def)
  from workspace_partition_fits [OF this refl i]
  have "snd (tmp_end (resolve_dims static_kernel batch_2_memory) 4) \<le>
     uint (get_workspace_size static_kernel 4)"
    by (elim conjE)
  with i show ?thesis
    by (simp add: static_kernel_def resolve_dims_def tmp_end_def tmp_threads_def
        tmp_v_scale_def tmp_v_def tmp_k_def workspace_def ptr_add_def tmp_mask_size_def
        head_tmp_k_size_def head_tmp_v_size_def head_tmp_v_scale_size_def tmp_thread_size_def
        N_pad16_def N_pad64_def head_size_pad16_def head_size_pad64_def pad_to_def)
qed

text \<open>
  C3 as stated fails when a dimension is declared dynamic: with the batch size left to
  the call and resolved to 2 (one head, seq_k 16, head_size 64, one thread), all resolved
  dimensions are positive and the regions end at byte 11904 of the workspace, while
  \<^verbatim>\<open>get_workspace_size\<close> returns 4096. (The scratch of a thread is addressed through a
  pointer to bytes: the regions of threads 0 and 1 are heads\<open>\<cdot>\<close>16\<open>\<cdot>\<close>pad(seq_k,64) = 1024
  bytes apart, not as many floats.)
\<close>

theorem workspace_partition_dynamic_counterexample:
  "0 < batch_size (resolve_dims dynamic_batch_kernel batch_2_memory) \<and>
   0 < head_num (resolve_dims dynamic_batch_kernel batch_2_memory) \<and>
   0 < dim_M (resolve_dims dynamic_batch_kernel batch_2_memory) \<and>
   0 < head_size (resolve_dims dynamic_batch_kernel batch_2_memory) \<and>
   0 < dim_N (resolve_dims dynamic_batch_kernel batch_2_memory) \<and>
   ints_defined (resolve_dims dynamic_batch_kernel batch_2_memory) 1 \<and>
   tmp_end (resolve_dims dynamic_batch_kernel batch_2_memory) 1 = (WORKSPACE, 11904) \<and>
   uint (get_workspace_size dynamic_batch_kernel 1) = 4096 \<and>
   \<not> snd (tmp_end (resolve_dims dynamic_batch_kernel batch_2_memory) 1) \<le>
       uint (get_workspace_size dynamic_batch_kernel 1) \<and>
   snd (curr_tmp (resolve_dims dynamic_batch_kernel batch_2_memory) 1) -
     snd (curr_tmp (resolve_dims dynamic_batch_kernel batch_2_memory) 0) = 1024"
  by (simp add: dynamic_batch_kernel_def batch_2_memory_def resolve_dims_def load_int32_def
      ints_defined_def int32_def get_workspace_size_def tmp_end_def tmp_threads_def
      tmp_v_scale_def tmp_v_def tmp_k_def curr_tmp_def workspace_def ptr_add_def
      tmp_mask_size_def head_tmp_k_size_def head_tmp_v_size_def head_tmp_v_scale_size_def
      tmp_thread_size_def N_pad16_def N_pad64_def head_size_pad16_def head_size_pad64_def
      pad_to_def)

subsection \<open>Memory\<close>

lemma write_bytes_apply:
  "write_bytes m (b, off) bs (b', off') =
     (if b' = b \<and> off \<le> off' \<and> off' < off + int (length bs)
      then bs ! nat (off' - off) else m (b', off'))"
proof (induction bs arbitrary: m off)
  case Nil
  then show ?case by auto
next
  case (Cons x xs)
  have nth: "(x # xs) ! nat (off' - off) = xs ! nat (off' - (off + 1))" if "off < off'"
  proof -
    have "nat (off' - off) = Suc (nat (off' - (off + 1)))" using that by linarith
    then show ?thesis by simp
  qed
  show ?case
    using nth by (auto simp add: Cons.IH ptr_add_def)
qed

lemma write_bytes_other_buffer: "fst p \<noteq> fst q \<Longrightarrow> write_bytes m q bs p = m p"
  by (cases p, cases q) (simp add: write_bytes_apply)

lemma write_bytes_below: "fst p = fst q \<Longrightarrow> snd p < snd q \<Longrightarrow> write_bytes m q bs p = m p"
  by (cases p, cases q) (simp add: write_bytes_apply)

lemma load_bytes_nth:
  "i < n \<Longrightarrow> load_bytes m p n ! i = m (fst p, snd p + int i)"
  by (simp add: load_bytes_def ptr_add_def)

lemma length_load_bytes [simp]: "length (load_bytes m p n) = n"
  by (simp add: load_bytes_def)

lemma fill_n_apply:
  assumes "v \<noteq> []"
  shows "fill_n m (b, off) count v (b', off') =
     (if b' = b \<and> off \<le> off' \<and> off' < off + int (length v) * count
      then v ! nat ((off' - off) mod int (length v)) else m (b', off'))"
  using assms
proof (induction m "(b, off)" count v arbitrary: off rule: fill_n.induct)
  case (1 m count v)
  let ?L = "int (length v)"
  have L: "0 < ?L" using "1.prems" by simp
  show ?case
  proof (cases "0 < count")
    case False
    moreover have "?L * count \<le> 0" using False L by (simp add: mult_le_0_iff)
    ultimately show ?thesis by (subst fill_n.simps) auto
  next
    case True
    have step: "fill_n m (b, off) count v = fill_n (write_bytes m (b, off) v) (b, off + ?L) (count - 1) v"
      using True by (subst fill_n.simps) (simp add: ptr_add_def)
    have IH: "fill_n (write_bytes m (b, off) v) (b, off + ?L) (count - 1) v (b', off') =
       (if b' = b \<and> off + ?L \<le> off' \<and> off' < off + ?L + ?L * (count - 1)
        then v ! nat ((off' - (off + ?L)) mod ?L) else write_bytes m (b, off) v (b', off'))"
      using "1.hyps" [OF True, of "off + ?L"] "1.prems" by (simp add: ptr_add_def)
    have m1: "(off' - (off + ?L)) mod ?L = (off' - off) mod ?L"
      by (metis diff_diff_eq mod_diff_right_eq mod_self diff_zero)
    have m2: "off \<le> off' \<Longrightarrow> off' < off + ?L \<Longrightarrow> (off' - off) mod ?L = off' - off"
      by simp
    define K where "K = ?L * count"
    have e: "off + ?L + ?L * (count - 1) = off + K" by (simp add: K_def algebra_simps)
    have ge: "?L \<le> K"
    proof -
      have "?L * 1 \<le> ?L * count" using True L by (intro mult_left_mono) auto
      then show ?thesis by (simp add: K_def)
    qed
    have "fill_n m (b, off) count v (b', off') =
       (if b' = b \<and> off \<le> off' \<and> off' < off + K
        then v ! nat ((off' - off) mod ?L) else m (b', off'))"
      unfolding step IH e using m1 m2 ge L
      by (auto simp add: write_bytes_apply)
    then show ?thesis by (simp add: K_def)
  qed
qed

lemma copy_n_apply:
  assumes "fst first \<noteq> fst result" and "0 < sz"
  shows "copy_n sz m first count result p =
     (if fst p = fst result \<and> snd result \<le> snd p \<and> snd p < snd result + int sz * count
      then m (fst first, snd first + (snd p - snd result)) else m p)"
  using assms
proof (induction sz m first count result rule: copy_n.induct)
  case (1 sz m first count result)
  let ?L = "int sz"
  have L: "0 < ?L" using "1.prems" by simp
  show ?case
  proof (cases "0 < count")
    case False
    moreover have "?L * count \<le> 0" using False L by (simp add: mult_le_0_iff)
    ultimately show ?thesis by (subst copy_n.simps) auto
  next
    case True
    let ?m' = "write_bytes m result (load_bytes m first sz)"
    have step: "copy_n sz m first count result =
        copy_n sz ?m' (ptr_add ?L first 1) (count - 1) (ptr_add ?L result 1)"
      using True by (subst copy_n.simps) simp
    have IH: "copy_n sz ?m' (ptr_add ?L first 1) (count - 1) (ptr_add ?L result 1) p =
       (if fst p = fst result \<and> snd result + ?L \<le> snd p \<and>
           snd p < snd result + ?L + ?L * (count - 1)
        then ?m' (fst first, snd first + ?L + (snd p - (snd result + ?L))) else ?m' p)"
      using "1.IH" [OF True] "1.prems" by (simp add: ptr_add_def)
    have src: "?m' (fst first, x) = m (fst first, x)" for x
      using "1.prems"(1) by (simp add: write_bytes_other_buffer)
    define K where "K = ?L * count"
    have e: "snd result + ?L + ?L * (count - 1) = snd result + K"
      by (simp add: K_def algebra_simps)
    have ge: "?L \<le> K"
    proof -
      have "?L * 1 \<le> ?L * count" using True L by (intro mult_left_mono) auto
      then show ?thesis by (simp add: K_def)
    qed
    have here: "?m' p = (if fst p = fst result \<and> snd result \<le> snd p \<and> snd p < snd result + ?L
        then m (fst first, snd first + (snd p - snd result)) else m p)"
      by (cases p, cases result) (auto simp add: write_bytes_apply load_bytes_nth)
    have "copy_n sz m first count result p =
       (if fst p = fst result \<and> snd result \<le> snd p \<and> snd p < snd result + K
        then m (fst first, snd first + (snd p - snd result)) else m p)"
      unfolding step IH e src here using ge L by auto
    then show ?thesis by (simp add: K_def)
  qed
qed

subsection \<open>The mask\<close>

lemma mask_row_apply:
  "mask_row d ibs m (b, off) =
    (if b = WORKSPACE \<and> 4 * (ibs * N_pad16 d) + 4 * dim_N d \<le> off \<and>
        off < 4 * (ibs * N_pad16 d) + 4 * dim_N d + 4 * (N_pad16 d - dim_N d)
     then neg_1000f ! nat ((off - (4 * (ibs * N_pad16 d) + 4 * dim_N d)) mod 4)
     else if b = WORKSPACE \<and> 4 * (ibs * N_pad16 d) \<le> off \<and>
        off < 4 * (ibs * N_pad16 d) + 4 * dim_N d
     then m (BINARY_ADD, 4 * (ibs * dim_N d) + (off - 4 * (ibs * N_pad16 d)))
     else m (b, off))"
proof -
  have c: "copy_n 4 m (BINARY_ADD, 4 * (ibs * dim_N d)) (dim_N d)
            (WORKSPACE, 4 * (ibs * N_pad16 d)) p =
     (if fst p = WORKSPACE \<and> 4 * (ibs * N_pad16 d) \<le> snd p \<and>
         snd p < 4 * (ibs * N_pad16 d) + 4 * dim_N d
      then m (BINARY_ADD, 4 * (ibs * dim_N d) + (snd p - 4 * (ibs * N_pad16 d)))
      else m p)" for p
    using copy_n_apply [of "(BINARY_ADD, 4 * (ibs * dim_N d))"
        "(WORKSPACE, 4 * (ibs * N_pad16 d))" 4 m "dim_N d" p]
    by simp
  have f: "fill_n m' (WORKSPACE, 4 * (ibs * N_pad16 d) + 4 * dim_N d)
             (N_pad16 d - dim_N d) neg_1000f (b, off) =
     (if b = WORKSPACE \<and> 4 * (ibs * N_pad16 d) + 4 * dim_N d \<le> off \<and>
         off < 4 * (ibs * N_pad16 d) + 4 * dim_N d + 4 * (N_pad16 d - dim_N d)
      then neg_1000f ! nat ((off - (4 * (ibs * N_pad16 d) + 4 * dim_N d)) mod 4)
      else m' (b, off))" for m'
    using fill_n_apply [of neg_1000f m' WORKSPACE "4 * (ibs * N_pad16 d) + 4 * dim_N d"
        "N_pad16 d - dim_N d" b off]
    by (simp add: neg_1000f_def)
  have "mask_row d ibs m =
     fill_n (copy_n 4 m (BINARY_ADD, 4 * (ibs * dim_N d)) (dim_N d)
            (WORKSPACE, 4 * (ibs * N_pad16 d)))
       (WORKSPACE, 4 * (ibs * N_pad16 d) + 4 * dim_N d) (N_pad16 d - dim_N d) neg_1000f"
    by (simp add: mask_row_def Let_def mask_ptr_def workspace_def ptr_add_def)
  then show ?thesis
    by (simp only: f c fst_conv snd_conv)
qed

lemma mask_loop_frame:
  assumes "b \<noteq> WORKSPACE \<or> off < 4 * (ibs * N_pad16 d)" and "0 \<le> N_pad16 d" "0 \<le> dim_N d"
  shows "mask_loop d ibs m (b, off) = m (b, off)"
  using assms
proof (induction d ibs m rule: mask_loop.induct)
  case (1 d ibs m)
  show ?case
  proof (cases "ibs < batch_size d")
    case False
    then show ?thesis by (subst mask_loop.simps) simp
  next
    case True
    have le: "ibs * N_pad16 d \<le> (ibs + 1) * N_pad16 d"
      using "1.prems"(2) by (simp add: algebra_simps)
    have "mask_loop d ibs m (b, off) = mask_loop d (ibs + 1) (mask_row d ibs m) (b, off)"
      using True by (subst mask_loop.simps) simp
    also have "\<dots> = mask_row d ibs m (b, off)"
      using "1.prems" le by (intro "1.IH" [OF True]) auto
    also have "\<dots> = m (b, off)"
      using "1.prems" by (auto simp add: mask_row_apply)
    finally show ?thesis .
  qed
qed

lemma mask_loop_rows:
  assumes "ibs \<le> r" "r < batch_size d" "0 \<le> e" "e < 4 * N_pad16 d" "0 \<le> dim_N d"
    "dim_N d \<le> N_pad16 d"
  shows "mask_loop d ibs m (WORKSPACE, 4 * (r * N_pad16 d) + e) =
     (if e < 4 * dim_N d then m (BINARY_ADD, 4 * (r * dim_N d) + e)
      else neg_1000f ! nat (e mod 4))"
  using assms
proof (induction d ibs m rule: mask_loop.induct)
  case (1 d ibs m)
  have P: "0 \<le> N_pad16 d" using "1.prems" by simp
  have lt: "ibs < batch_size d" using "1.prems" by simp
  have step: "mask_loop d ibs m = mask_loop d (ibs + 1) (mask_row d ibs m)"
    using lt by (subst mask_loop.simps) simp
  show ?case
  proof (cases "r = ibs")
    case True
    have "4 * (r * N_pad16 d) + e < 4 * ((ibs + 1) * N_pad16 d)"
      using True "1.prems"(4) by (simp add: algebra_simps)
    then have "mask_loop d (ibs + 1) (mask_row d ibs m) (WORKSPACE, 4 * (r * N_pad16 d) + e) =
        mask_row d ibs m (WORKSPACE, 4 * (r * N_pad16 d) + e)"
      using P "1.prems"(5) by (intro mask_loop_frame) auto
    moreover have "(e - 4 * dim_N d) mod 4 = e mod 4"
      by (metis mod_diff_right_eq mod_mult_self1_is_0 diff_zero)
    ultimately show ?thesis
      unfolding step using True "1.prems" by (auto simp add: mask_row_apply)
  next
    case False
    then have "ibs + 1 \<le> r" using "1.prems"(1) by simp
    then have "mask_loop d (ibs + 1) (mask_row d ibs m) (WORKSPACE, 4 * (r * N_pad16 d) + e) =
       (if e < 4 * dim_N d then mask_row d ibs m (BINARY_ADD, 4 * (r * dim_N d) + e)
        else neg_1000f ! nat (e mod 4))"
      using "1.prems" by (intro "1.IH" [OF lt]) auto
    then show ?thesis
      unfolding step by (simp add: mask_row_apply)
  qed
qed

lemma load_f32_eq:
  "load_f32 m p = [m p, m (fst p, snd p + 1), m (fst p, snd p + 2), m (fst p, snd p + 3)]"
proof -
  have "[0..<4] = [0, 1, 2, 3]" by (simp add: upt_rec)
  then show ?thesis by (simp add: load_f32_def load_bytes_def ptr_add_def)
qed

lemma mask_loop_float:
  assumes "0 \<le> ibs" "ibs < batch_size d" "0 \<le> c" "c < N_pad16 d" "0 \<le> dim_N d"
    "dim_N d \<le> N_pad16 d"
  shows "load_f32 (mask_loop d 0 m) (ptr_add 4 workspace (ibs * N_pad16 d + c)) =
     (if c < dim_N d then load_f32 m (ptr_add 4 mask_ptr (ibs * dim_N d + c)) else neg_1000f)"
proof -
  have byte: "mask_loop d 0 m (WORKSPACE, 4 * (ibs * N_pad16 d + c) + i) =
      (if c < dim_N d then m (BINARY_ADD, 4 * (ibs * dim_N d + c) + i)
       else neg_1000f ! nat i)" if "0 \<le> i" "i < 4" for i
  proof -
    have "mask_loop d 0 m (WORKSPACE, 4 * (ibs * N_pad16 d) + (4 * c + i)) =
      (if 4 * c + i < 4 * dim_N d then m (BINARY_ADD, 4 * (ibs * dim_N d) + (4 * c + i))
       else neg_1000f ! nat ((4 * c + i) mod 4))"
      using assms that by (intro mask_loop_rows) auto
    moreover have "(4 * c + i) mod 4 = i" using that by simp
    moreover have "4 * c + i < 4 * dim_N d \<longleftrightarrow> c < dim_N d" using that by auto
    ultimately show ?thesis by (simp add: algebra_simps)
  qed
  have "load_f32 (mask_loop d 0 m) (ptr_add 4 workspace (ibs * N_pad16 d + c)) =
      [mask_loop d 0 m (WORKSPACE, 4 * (ibs * N_pad16 d + c) + 0),
       mask_loop d 0 m (WORKSPACE, 4 * (ibs * N_pad16 d + c) + 1),
       mask_loop d 0 m (WORKSPACE, 4 * (ibs * N_pad16 d + c) + 2),
       mask_loop d 0 m (WORKSPACE, 4 * (ibs * N_pad16 d + c) + 3)]"
    by (simp add: load_f32_eq ptr_add_def workspace_def)
  also have "\<dots> = (if c < dim_N d
      then [m (BINARY_ADD, 4 * (ibs * dim_N d + c) + 0), m (BINARY_ADD, 4 * (ibs * dim_N d + c) + 1),
            m (BINARY_ADD, 4 * (ibs * dim_N d + c) + 2), m (BINARY_ADD, 4 * (ibs * dim_N d + c) + 3)]
      else [neg_1000f ! nat 0, neg_1000f ! nat 1, neg_1000f ! nat 2, neg_1000f ! nat 3])"
    by (simp only: byte split: if_splits) simp
  also have "\<dots> = (if c < dim_N d then load_f32 m (ptr_add 4 mask_ptr (ibs * dim_N d + c))
      else neg_1000f)"
    by (simp add: load_f32_eq ptr_add_def mask_ptr_def neg_1000f_def)
  finally show ?thesis .
qed



subsection \<open>The padding of the Value\<close>

lemma fst_ptr_add [simp]: "fst (ptr_add sz p n) = fst p"
  by (simp add: ptr_add_def)

lemma snd_ptr_add [simp]: "snd (ptr_add sz p n) = snd p + sz * n"
  by (simp add: ptr_add_def)

lemma fst_tmp [simp]:
  "fst workspace = WORKSPACE" "fst (tmp_k d) = WORKSPACE" "fst (tmp_v d) = WORKSPACE"
  "fst (tmp_v_scale d) = WORKSPACE" "fst (tmp_threads d) = WORKSPACE"
  by (simp_all add: workspace_def tmp_k_def tmp_v_def tmp_v_scale_def tmp_threads_def)

lemma fst_block_tmp_v [simp]: "fst (block_tmp_v d ibs ihn j) = WORKSPACE"
  by (simp add: block_tmp_v_def Let_def)

lemma snd_block_tmp_v:
  "snd (block_tmp_v d ibs ihn j) =
     snd (tmp_v d) + (ibs * head_num d + ihn) * head_tmp_v_size d + j * N_pad64 d"
  by (simp add: block_tmp_v_def Let_def)

lemma tr_v_data_of_simps [simp]:
  "v_dst (tr_v_data_of d ibs ihn j) = block_tmp_v d ibs ihn j"
  "fst (v_dst_scale (tr_v_data_of d ibs ihn j)) = WORKSPACE"
  "snd (v_dst_scale (tr_v_data_of d ibs ihn j)) =
     snd (tmp_v_scale d) + 4 * ((ibs * head_num d + ihn) * head_tmp_v_scale_size d) + 4 * j"
  by (simp_all add: tr_v_data_of_def Let_def)

lemma write_bytes_frame:
  "fst p \<noteq> fst q \<or> snd p < snd q \<Longrightarrow> write_bytes m q bs p = m p"
  by (cases p, cases q) (auto simp add: write_bytes_apply)

lemma fill_n_frame:
  "fst p \<noteq> fst q \<or> snd p < snd q \<Longrightarrow> fill_n m q count v p = m p"
proof (induction m q count v rule: fill_n.induct)
  case (1 m first count v)
  show ?case
  proof (cases "0 < count")
    case False
    then show ?thesis by (subst fill_n.simps) simp
  next
    case True
    have "fill_n m first count v p =
        fill_n (write_bytes m first v) (ptr_add (int (length v)) first 1) (count - 1) v p"
      using True by (subst fill_n.simps) simp
    also have "\<dots> = write_bytes m first v p"
      using "1.prems" by (intro "1.IH" [OF True]) auto
    also have "\<dots> = m p"
      using "1.prems" by (rule write_bytes_frame)
    finally show ?thesis .
  qed
qed





lemma pair_index_bound:
  fixes b h ibs ihn :: int
  assumes "0 \<le> ibs" "ibs < b" "0 \<le> ihn" "ihn < h"
  shows "0 \<le> ibs * h + ihn" and "ibs * h + ihn + 1 \<le> b * h"
proof -
  have h: "0 < h" using assms by simp
  show "0 \<le> ibs * h + ihn" using assms h by simp
  have "ibs * h \<le> (b - 1) * h" using assms h by (intro mult_right_mono) auto
  then show "ibs * h + ihn + 1 \<le> b * h" using assms by (simp add: algebra_simps)
qed

lemma block_end_in_head:
  assumes "0 \<le> j" "j < head_size d" "16 dvd j" "0 \<le> N_pad64 d"
  shows "(j + 16) * N_pad64 d \<le> head_tmp_v_size d"
proof -
  have "j + 16 \<le> head_size_pad16 d"
  proof (rule multiple_le [where k = 16])
    show "16 dvd j + 16" using assms(3) by simp
    show "16 dvd head_size_pad16 d" by (simp add: head_size_pad16_def pad_to_dvd)
    show "j + 16 < head_size_pad16 d + 16"
      using assms(2) pad_to_ge [of 16 "head_size d"] by (simp add: head_size_pad16_def)
  qed simp
  then have "(j + 16) * N_pad64 d \<le> head_size_pad16 d * N_pad64 d"
    using assms(4) by (rule mult_right_mono)
  then show ?thesis by (simp add: head_tmp_v_size_def mult.commute)
qed




subsection \<open>What a call leaves alone\<close>

lemma transpose_k_block_other:
  assumes "fst p \<noteq> WORKSPACE"
  shows "transpose_k_block K d ibs ihn j m p = m p"
proof -
  have "fst (k_dst (tr_k_data_of d ibs ihn j)) = WORKSPACE"
    by (simp add: tr_k_data_of_def Let_def)
  with assms have "fst p \<noteq> fst (k_dst (tr_k_data_of d ibs ihn j)) \<or>
      snd p < snd (k_dst (tr_k_data_of d ibs ihn j))"
    by simp
  then show ?thesis
    unfolding transpose_k_block_def Let_def by (rule write_bytes_frame)
qed

lemma transpose_k_loop_other:
  assumes "fst p \<noteq> WORKSPACE"
  shows "transpose_k_loop K d ibs ihn j m p = m p"
  using assms
proof (induction K d ibs ihn j m rule: transpose_k_loop.induct)
  case (1 K d ibs ihn j m)
  show ?case
  proof (cases "j < dim_N d")
    case False
    then show ?thesis by (subst transpose_k_loop.simps) simp
  next
    case True
    have "transpose_k_loop K d ibs ihn j m p = transpose_k_loop K d ibs ihn (j + 16) (transpose_k_block K d ibs ihn j m) p"
      using True by (subst transpose_k_loop.simps) simp
    also have "\<dots> = (transpose_k_block K d ibs ihn j m) p"
      using "1.prems" by (rule "1.IH" [OF True])
    also have "\<dots> = m p"
      using "1.prems" by (rule transpose_k_block_other)
    finally show ?thesis .
  qed
qed

lemma transpose_v_block_other:
  assumes "fst p \<noteq> WORKSPACE"
  shows "transpose_v_block K d ibs ihn j m p = m p"
proof -
  define tr where "tr = tr_v_data_of d ibs ihn j"
  define out where "out = ker_seq_cpy_v K tr m"
  define m0 where "m0 = write_bytes m (v_dst tr) (fst out)"
  define m1 where "m1 = write_bytes m0 (v_dst_scale tr) (snd out)"
  define q where "q = ptr_add 1 (block_tmp_v d ibs ihn j) (size_trq10n_v_block d)"
  have 3: "fst p \<noteq> fst q \<or> snd p < snd q"
    using assms by (simp add: q_def)
  have 2: "fst p \<noteq> fst (v_dst_scale tr) \<or> snd p < snd (v_dst_scale tr)"
    using assms unfolding tr_def by simp
  have 1: "fst p \<noteq> fst (v_dst tr) \<or> snd p < snd (v_dst tr)"
    using assms unfolding tr_def by simp
  have "transpose_v_block K d ibs ihn j m =
      (if size_pad0_v_block d \<noteq> 0 then fill_n m1 q (size_pad0_v_block d) [0] else m1)"
    unfolding transpose_v_block_def Let_def m1_def m0_def out_def tr_def q_def ..
  moreover have "fill_n m1 q (size_pad0_v_block d) [0] p = m1 p"
    using 3 by (rule fill_n_frame)
  moreover have "m1 p = m0 p"
    unfolding m1_def using 2 by (rule write_bytes_frame)
  moreover have "m0 p = m p"
    unfolding m0_def using 1 by (rule write_bytes_frame)
  ultimately show ?thesis by simp
qed

lemma transpose_v_loop_other:
  assumes "fst p \<noteq> WORKSPACE"
  shows "transpose_v_loop K d ibs ihn j m p = m p"
  using assms
proof (induction K d ibs ihn j m rule: transpose_v_loop.induct)
  case (1 K d ibs ihn j m)
  show ?case
  proof (cases "j < head_size d")
    case False
    then show ?thesis by (subst transpose_v_loop.simps) simp
  next
    case True
    have "transpose_v_loop K d ibs ihn j m p = transpose_v_loop K d ibs ihn (j + 16) (transpose_v_block K d ibs ihn j m) p"
      using True by (subst transpose_v_loop.simps) simp
    also have "\<dots> = (transpose_v_block K d ibs ihn j m) p"
      using "1.prems" by (rule "1.IH" [OF True])
    also have "\<dots> = m p"
      using "1.prems" by (rule transpose_v_block_other)
    finally show ?thesis .
  qed
qed

lemma phase1_heads_other:
  assumes "fst p \<noteq> WORKSPACE"
  shows "phase1_heads K d ibs ihn m p = m p"
  using assms
proof (induction K d ibs ihn m rule: phase1_heads.induct)
  case (1 K d ibs ihn m)
  show ?case
  proof (cases "ihn < head_num d")
    case False
    then show ?thesis by (subst phase1_heads.simps) simp
  next
    case True
    have "phase1_heads K d ibs ihn m p = phase1_heads K d ibs (ihn + 1) (transpose_v_loop K d ibs ihn 0 (transpose_k_loop K d ibs ihn 0 m)) p"
      using True by (subst phase1_heads.simps) simp
    also have "\<dots> = (transpose_v_loop K d ibs ihn 0 (transpose_k_loop K d ibs ihn 0 m)) p"
      using "1.prems" by (rule "1.IH" [OF True])
    also have "\<dots> = transpose_k_loop K d ibs ihn 0 m p"
      using "1.prems" by (rule transpose_v_loop_other)
    also have "\<dots> = m p"
      using "1.prems" by (rule transpose_k_loop_other)
    finally show ?thesis .
  qed
qed

lemma phase1_other:
  assumes "fst p \<noteq> WORKSPACE"
  shows "phase1 K d ibs m p = m p"
  using assms
proof (induction K d ibs m rule: phase1.induct)
  case (1 K d ibs m)
  show ?case
  proof (cases "ibs < batch_size d")
    case False
    then show ?thesis by (subst phase1.simps) simp
  next
    case True
    have "phase1 K d ibs m p = phase1 K d (ibs + 1) (phase1_heads K d ibs 0 m) p"
      using True by (subst phase1.simps) simp
    also have "\<dots> = (phase1_heads K d ibs 0 m) p"
      using "1.prems" by (rule "1.IH" [OF True])
    also have "\<dots> = m p"
      using "1.prems" by (rule phase1_heads_other)
    finally show ?thesis .
  qed
qed

lemma mask_row_other:
  assumes "fst p \<noteq> WORKSPACE"
  shows "mask_row d ibs m p = m p"
proof -
  obtain b off where p: "p = (b, off)" by (cases p)
  with assms have "b \<noteq> WORKSPACE" by simp
  then show ?thesis unfolding p mask_row_apply by (simp only: simp_thms if_False)
qed

lemma mask_loop_other:
  assumes "fst p \<noteq> WORKSPACE"
  shows "mask_loop d ibs m p = m p"
  using assms
proof (induction d ibs m rule: mask_loop.induct)
  case (1 d ibs m)
  show ?case
  proof (cases "ibs < batch_size d")
    case False
    then show ?thesis by (subst mask_loop.simps) simp
  next
    case True
    have "mask_loop d ibs m p = mask_loop d (ibs + 1) (mask_row d ibs m) p"
      using True by (subst mask_loop.simps) simp
    also have "\<dots> = (mask_row d ibs m) p"
      using "1.prems" by (rule "1.IH" [OF True])
    also have "\<dots> = m p"
      using "1.prems" by (rule mask_row_other)
    finally show ?thesis .
  qed
qed

lemma prepare_mask_other:
  assumes "fst p \<noteq> WORKSPACE"
  shows "snd (prepare_mask d m) p = m p"
proof (cases "dim_N d \<noteq> N_pad16 d")
  case True
  then have "snd (prepare_mask d m) = mask_loop d 0 m" by (simp add: prepare_mask_def)
  then show ?thesis using mask_loop_other [OF assms, of d 0 m] by simp
next
  case False
  then show ?thesis by (simp add: prepare_mask_def)
qed

lemma mm_data_dst:
  "fst (qk_dst (mm_qk_data_of d tmp_mask t ibs i)) = WORKSPACE"
  "fst (av_dst (mm_av_data_of d t ibs i)) = DST"
  "fst (av_dst_scale (mm_av_data_of d t ibs i)) = DST_SCALE"
  by (simp_all add: mm_qk_data_of_def mm_av_data_of_def Let_def curr_tmp_def dst_def
      dst_scale_def)

lemma attention_block_other:
  assumes "fst p \<notin> {DST, DST_SCALE, WORKSPACE}"
  shows "mem (attention_block K d tmp_mask t ibs i s) p = mem s p"
proof -
  define s1 where "s1 = (if \<not> amx_init s t
               then s\<lparr>amx_init := (amx_init s)(t := True), tile_cfg := tile_cfg s @ [t]\<rparr>
               else s)"
  define mm_qk where "mm_qk = mm_qk_data_of d tmp_mask t ibs i"
  define m2 where "m2 = write_bytes (mem s1) (qk_dst mm_qk) (ker_qxk K mm_qk (mem s1))"
  define mm_av where "mm_av = mm_av_data_of d t ibs i"
  define out where "out = ker_axv K mm_av m2"
  define m3 where "m3 = write_bytes m2 (av_dst mm_av) (fst out)"
  define m4 where "m4 = write_bytes m3 (av_dst_scale mm_av) (snd out)"
  have "attention_block K d tmp_mask t ibs i s = s1\<lparr>mem := m4\<rparr>"
    unfolding attention_block_def Let_def m4_def m3_def out_def mm_av_def m2_def mm_qk_def
      s1_def ..
  moreover have "m4 p = m3 p"
    unfolding m4_def using assms by (intro write_bytes_frame) (simp add: mm_av_def mm_data_dst)
  moreover have "m3 p = m2 p"
    unfolding m3_def using assms by (intro write_bytes_frame) (simp add: mm_av_def mm_data_dst)
  moreover have "m2 p = mem s1 p"
    unfolding m2_def using assms by (intro write_bytes_frame) (simp add: mm_qk_def mm_data_dst)
  moreover have "mem s1 = mem s" by (simp add: s1_def)
  ultimately show ?thesis by simp
qed

lemma phase2_rows_other:
  assumes "fst p \<notin> {DST, DST_SCALE, WORKSPACE}"
  shows "mem (phase2_rows K thr d tmp_mask ibs i s) p = mem s p"
  using assms
proof (induction K thr d tmp_mask ibs i s rule: phase2_rows.induct)
  case (1 K thr d tmp_mask ibs i s)
  show ?case
  proof (cases "i < dim_M d")
    case False
    then show ?thesis by (subst phase2_rows.simps) simp
  next
    case True
    have "mem (phase2_rows K thr d tmp_mask ibs i s) p = mem (phase2_rows K thr d tmp_mask ibs (i + 16) (attention_block K d tmp_mask (thr ibs i) ibs i s)) p"
      using True by (subst phase2_rows.simps) simp
    also have "\<dots> = mem (attention_block K d tmp_mask (thr ibs i) ibs i s) p"
      using "1.prems" by (rule "1.IH" [OF True])
    also have "\<dots> = mem s p"
      using "1.prems" by (rule attention_block_other)
    finally show ?thesis .
  qed
qed

lemma phase2_other:
  assumes "fst p \<notin> {DST, DST_SCALE, WORKSPACE}"
  shows "mem (phase2 K thr d tmp_mask ibs s) p = mem s p"
  using assms
proof (induction K thr d tmp_mask ibs s rule: phase2.induct)
  case (1 K thr d tmp_mask ibs s)
  show ?case
  proof (cases "ibs < batch_size d")
    case False
    then show ?thesis by (subst phase2.simps) simp
  next
    case True
    have "mem (phase2 K thr d tmp_mask ibs s) p = mem (phase2 K thr d tmp_mask (ibs + 1) (phase2_rows K thr d tmp_mask ibs 0 s)) p"
      using True by (subst phase2.simps) simp
    also have "\<dots> = mem (phase2_rows K thr d tmp_mask ibs 0 s) p"
      using "1.prems" by (rule "1.IH" [OF True])
    also have "\<dots> = mem s p"
      using "1.prems" by (rule phase2_rows_other)
    finally show ?thesis .
  qed
qed

text \<open>
  When the behaviour of the call is defined, every store is inside the buffer it is
  addressed to: a byte outside its buffer is left as it was.
\<close>

lemma write_bytes_outside:
  assumes "store_ok ext q (int (length bs))" and "outside ext p"
  shows "write_bytes m q bs p = m p"
  using assms by (cases p, cases q) (auto simp add: write_bytes_apply store_ok_def outside_def)

lemma fill_n_outside:
  assumes "store_ok ext q (int (length v) * count)" and "v \<noteq> []" and "outside ext p"
  shows "fill_n m q count v p = m p"
proof -
  obtain b off where q: "q = (b, off)" by (cases q)
  obtain b' off' where p: "p = (b', off')" by (cases p)
  define n where "n = int (length v) * count"
  have "\<not> (b' = b \<and> off \<le> off' \<and> off' < off + n)"
    using assms(1,3) unfolding p q store_ok_def outside_def n_def [symmetric] by auto
  then show ?thesis
    unfolding p q fill_n_apply [OF assms(2)] n_def by (simp only: if_False)
qed

lemma transpose_k_block_outside:
  assumes "transpose_k_block_ok ext K d ibs ihn j m" and "outside ext p"
  shows "transpose_k_block K d ibs ihn j m p = m p"
proof -
  define tr where "tr = tr_k_data_of d ibs ihn j"
  have "store_ok ext (k_dst tr) (int (length (ker_seq_cpy_k K tr m)))"
    using assms(1) unfolding transpose_k_block_ok_def Let_def tr_def .
  then have "write_bytes m (k_dst tr) (ker_seq_cpy_k K tr m) p = m p"
    using assms(2) by (rule write_bytes_outside)
  then show ?thesis
    unfolding transpose_k_block_def Let_def tr_def .
qed

lemma transpose_k_loop_outside:
  assumes "transpose_k_loop_ok ext K d ibs ihn j m" and "outside ext p"
  shows "transpose_k_loop K d ibs ihn j m p = m p"
  using assms
proof (induction K d ibs ihn j m rule: transpose_k_loop.induct)
  case (1 K d ibs ihn j m)
  show ?case
  proof (cases "j < dim_N d")
    case False
    then show ?thesis by (subst transpose_k_loop.simps) (simp only: if_False)
  next
    case True
    have "(if j < dim_N d then transpose_k_block_ok ext K d ibs ihn j m \<and>
        transpose_k_loop_ok ext K d ibs ihn (j + 16) (transpose_k_block K d ibs ihn j m) else True)"
      using "1.prems"(1) by (subst (asm) transpose_k_loop_ok.simps)
    then have both: "transpose_k_block_ok ext K d ibs ihn j m \<and>
        transpose_k_loop_ok ext K d ibs ihn (j + 16) (transpose_k_block K d ibs ihn j m)"
      using True by (simp only: if_True)
    have ok: "transpose_k_block_ok ext K d ibs ihn j m"
      "transpose_k_loop_ok ext K d ibs ihn (j + 16) (transpose_k_block K d ibs ihn j m)"
      using both by (rule conjunct1, rule conjunct2)
    have "transpose_k_loop K d ibs ihn j m p =
        transpose_k_loop K d ibs ihn (j + 16) (transpose_k_block K d ibs ihn j m) p"
      using True by (subst transpose_k_loop.simps) (simp only: if_True)
    also have "\<dots> = (transpose_k_block K d ibs ihn j m) p"
      using ok(2) "1.prems"(2) by (rule "1.IH" [OF True])
    also have "\<dots> = m p"
      using ok(1) "1.prems"(2) by (rule transpose_k_block_outside)
    finally show ?thesis .
  qed
qed

lemma transpose_v_block_outside:
  assumes "transpose_v_block_ok ext K d ibs ihn j m" and "outside ext p"
  shows "transpose_v_block K d ibs ihn j m p = m p"
proof -
  define tr where "tr = tr_v_data_of d ibs ihn j"
  define out where "out = ker_seq_cpy_v K tr m"
  define m0 where "m0 = write_bytes m (v_dst tr) (fst out)"
  define m1 where "m1 = write_bytes m0 (v_dst_scale tr) (snd out)"
  define q where "q = ptr_add 1 (block_tmp_v d ibs ihn j) (size_trq10n_v_block d)"
  have "store_ok ext (v_dst tr) (int (length (fst out))) \<and>
        store_ok ext (v_dst_scale tr) (int (length (snd out))) \<and>
        store_ok ext q (size_pad0_v_block d)"
    using assms(1) unfolding transpose_v_block_ok_def Let_def tr_def out_def q_def .
  then have 1: "store_ok ext (v_dst tr) (int (length (fst out)))"
    and 2: "store_ok ext (v_dst_scale tr) (int (length (snd out)))"
    and 3: "store_ok ext q (int (length [0::byte]) * size_pad0_v_block d)"
    by simp_all
  have "transpose_v_block K d ibs ihn j m =
      (if size_pad0_v_block d \<noteq> 0 then fill_n m1 q (size_pad0_v_block d) [0] else m1)"
    unfolding transpose_v_block_def Let_def m1_def m0_def out_def tr_def q_def ..
  moreover have "fill_n m1 q (size_pad0_v_block d) [0] p = m1 p"
    using 3 _ assms(2) by (rule fill_n_outside) simp
  moreover have "m1 p = m0 p"
    unfolding m1_def using 2 assms(2) by (rule write_bytes_outside)
  moreover have "m0 p = m p"
    unfolding m0_def using 1 assms(2) by (rule write_bytes_outside)
  ultimately show ?thesis by simp
qed

lemma transpose_v_loop_outside:
  assumes "transpose_v_loop_ok ext K d ibs ihn j m" and "outside ext p"
  shows "transpose_v_loop K d ibs ihn j m p = m p"
  using assms
proof (induction K d ibs ihn j m rule: transpose_v_loop.induct)
  case (1 K d ibs ihn j m)
  show ?case
  proof (cases "j < head_size d")
    case False
    then show ?thesis by (subst transpose_v_loop.simps) (simp only: if_False)
  next
    case True
    have "(if j < head_size d then transpose_v_block_ok ext K d ibs ihn j m \<and>
        transpose_v_loop_ok ext K d ibs ihn (j + 16) (transpose_v_block K d ibs ihn j m) else True)"
      using "1.prems"(1) by (subst (asm) transpose_v_loop_ok.simps)
    then have both: "transpose_v_block_ok ext K d ibs ihn j m \<and>
        transpose_v_loop_ok ext K d ibs ihn (j + 16) (transpose_v_block K d ibs ihn j m)"
      using True by (simp only: if_True)
    have ok: "transpose_v_block_ok ext K d ibs ihn j m"
      "transpose_v_loop_ok ext K d ibs ihn (j + 16) (transpose_v_block K d ibs ihn j m)"
      using both by (rule conjunct1, rule conjunct2)
    have "transpose_v_loop K d ibs ihn j m p =
        transpose_v_loop K d ibs ihn (j + 16) (transpose_v_block K d ibs ihn j m) p"
      using True by (subst transpose_v_loop.simps) (simp only: if_True)
    also have "\<dots> = (transpose_v_block K d ibs ihn j m) p"
      using ok(2) "1.prems"(2) by (rule "1.IH" [OF True])
    also have "\<dots> = m p"
      using ok(1) "1.prems"(2) by (rule transpose_v_block_outside)
    finally show ?thesis .
  qed
qed

lemma phase1_heads_outside:
  assumes "phase1_heads_ok ext K d ibs ihn m" and "outside ext p"
  shows "phase1_heads K d ibs ihn m p = m p"
  using assms
proof (induction K d ibs ihn m rule: phase1_heads.induct)
  case (1 K d ibs ihn m)
  show ?case
  proof (cases "ihn < head_num d")
    case False
    then show ?thesis by (subst phase1_heads.simps) (simp only: if_False)
  next
    case True
    define mk where "mk = transpose_k_loop K d ibs ihn 0 m"
    define mv where "mv = transpose_v_loop K d ibs ihn 0 mk"
    have "(if ihn < head_num d then transpose_k_loop_ok ext K d ibs ihn 0 m \<and>
        transpose_v_loop_ok ext K d ibs ihn 0 mk \<and>
        phase1_heads_ok ext K d ibs (ihn + 1) mv else True)"
      using "1.prems"(1) unfolding mv_def mk_def by (subst (asm) phase1_heads_ok.simps)
    then have both: "transpose_k_loop_ok ext K d ibs ihn 0 m \<and>
        transpose_v_loop_ok ext K d ibs ihn 0 mk \<and>
        phase1_heads_ok ext K d ibs (ihn + 1) mv"
      using True by (simp only: if_True)
    have ok: "transpose_k_loop_ok ext K d ibs ihn 0 m"
      "transpose_v_loop_ok ext K d ibs ihn 0 mk"
      "phase1_heads_ok ext K d ibs (ihn + 1) mv"
      using both by (rule conjunct1, rule conjunct1 [OF conjunct2], rule conjunct2 [OF conjunct2])
    have "phase1_heads K d ibs ihn m p = phase1_heads K d ibs (ihn + 1) mv p"
      using True unfolding mv_def mk_def by (subst phase1_heads.simps) (simp only: if_True)
    also have "\<dots> = mv p"
      using ok(3) "1.prems"(2) unfolding mv_def mk_def by (rule "1.IH" [OF True])
    also have "\<dots> = mk p"
      unfolding mv_def using ok(2) "1.prems"(2) by (rule transpose_v_loop_outside)
    also have "\<dots> = m p"
      unfolding mk_def using ok(1) "1.prems"(2) by (rule transpose_k_loop_outside)
    finally show ?thesis .
  qed
qed

lemma phase1_outside:
  assumes "phase1_ok ext K d ibs m" and "outside ext p"
  shows "phase1 K d ibs m p = m p"
  using assms
proof (induction K d ibs m rule: phase1.induct)
  case (1 K d ibs m)
  show ?case
  proof (cases "ibs < batch_size d")
    case False
    then show ?thesis by (subst phase1.simps) (simp only: if_False)
  next
    case True
    have "(if ibs < batch_size d then phase1_heads_ok ext K d ibs 0 m \<and>
        phase1_ok ext K d (ibs + 1) (phase1_heads K d ibs 0 m) else True)"
      using "1.prems"(1) by (subst (asm) phase1_ok.simps)
    then have both: "phase1_heads_ok ext K d ibs 0 m \<and>
        phase1_ok ext K d (ibs + 1) (phase1_heads K d ibs 0 m)"
      using True by (simp only: if_True)
    have ok: "phase1_heads_ok ext K d ibs 0 m"
      "phase1_ok ext K d (ibs + 1) (phase1_heads K d ibs 0 m)"
      using both by (rule conjunct1, rule conjunct2)
    have "phase1 K d ibs m p = phase1 K d (ibs + 1) (phase1_heads K d ibs 0 m) p"
      using True by (subst phase1.simps) (simp only: if_True)
    also have "\<dots> = (phase1_heads K d ibs 0 m) p"
      using ok(2) "1.prems"(2) by (rule "1.IH" [OF True])
    also have "\<dots> = m p"
      using ok(1) "1.prems"(2) by (rule phase1_heads_outside)
    finally show ?thesis .
  qed
qed

lemma mask_row_outside:
  assumes "mask_row_ok ext d ibs" and "outside ext p"
  shows "mask_row d ibs m p = m p"
proof -
  obtain b off where p: "p = (b, off)" by (cases p)
  define r where "r = 4 * (ibs * N_pad16 d)"
  define n where "n = 4 * dim_N d"
  define g where "g = 4 * (N_pad16 d - dim_N d)"
  have 1: "store_ok ext (WORKSPACE, r) n" and 2: "store_ok ext (WORKSPACE, r + n) g"
    using assms(1) unfolding mask_row_ok_def Let_def
    by (simp_all add: workspace_def ptr_add_def r_def n_def g_def)
  have o: "b = WORKSPACE \<Longrightarrow> off < 0 \<or> ext WORKSPACE \<le> off"
    using assms(2) unfolding p outside_def by simp
  have a: "\<not> (b = WORKSPACE \<and> r + n \<le> off \<and> off < r + n + g)"
    using 2 o unfolding store_ok_def by auto
  have b: "\<not> (b = WORKSPACE \<and> r \<le> off \<and> off < r + n)"
    using 1 o unfolding store_ok_def by auto
  show ?thesis
    unfolding p mask_row_apply r_def [symmetric] n_def [symmetric] g_def [symmetric]
    using a b by (simp only: if_False)
qed

lemma mask_loop_outside:
  assumes "mask_loop_ok ext d ibs" and "outside ext p"
  shows "mask_loop d ibs m p = m p"
  using assms
proof (induction d ibs m rule: mask_loop.induct)
  case (1 d ibs m)
  show ?case
  proof (cases "ibs < batch_size d")
    case False
    then show ?thesis by (subst mask_loop.simps) (simp only: if_False)
  next
    case True
    have "(if ibs < batch_size d then mask_row_ok ext d ibs \<and>
        mask_loop_ok ext d (ibs + 1) else True)"
      using "1.prems"(1) by (subst (asm) mask_loop_ok.simps)
    then have both: "mask_row_ok ext d ibs \<and>
        mask_loop_ok ext d (ibs + 1)"
      using True by (simp only: if_True)
    have ok: "mask_row_ok ext d ibs"
      "mask_loop_ok ext d (ibs + 1)"
      using both by (rule conjunct1, rule conjunct2)
    have "mask_loop d ibs m p = mask_loop d (ibs + 1) (mask_row d ibs m) p"
      using True by (subst mask_loop.simps) (simp only: if_True)
    also have "\<dots> = (mask_row d ibs m) p"
      using ok(2) "1.prems"(2) by (rule "1.IH" [OF True])
    also have "\<dots> = m p"
      using ok(1) "1.prems"(2) by (rule mask_row_outside)
    finally show ?thesis .
  qed
qed

lemma prepare_mask_outside:
  assumes "prepare_mask_ok ext d" and "outside ext p"
  shows "snd (prepare_mask d m) p = m p"
proof (cases "dim_N d \<noteq> N_pad16 d")
  case True
  then have "snd (prepare_mask d m) = mask_loop d 0 m" by (simp add: prepare_mask_def)
  moreover have "mask_loop_ok ext d 0" using assms(1) True by (simp add: prepare_mask_ok_def)
  ultimately show ?thesis using mask_loop_outside [OF _ assms(2), of d 0 m] by simp
next
  case False
  then show ?thesis by (simp add: prepare_mask_def)
qed

lemma attention_block_outside:
  assumes "attention_block_ok ext K d tmp_mask t ibs i s" and "outside ext p"
  shows "mem (attention_block K d tmp_mask t ibs i s) p = mem s p"
proof -
  define s1 where "s1 = (if \<not> amx_init s t
               then s\<lparr>amx_init := (amx_init s)(t := True), tile_cfg := tile_cfg s @ [t]\<rparr>
               else s)"
  define mm_qk where "mm_qk = mm_qk_data_of d tmp_mask t ibs i"
  define m2 where "m2 = write_bytes (mem s1) (qk_dst mm_qk) (ker_qxk K mm_qk (mem s1))"
  define mm_av where "mm_av = mm_av_data_of d t ibs i"
  define out where "out = ker_axv K mm_av m2"
  define m3 where "m3 = write_bytes m2 (av_dst mm_av) (fst out)"
  define m4 where "m4 = write_bytes m3 (av_dst_scale mm_av) (snd out)"
  have s1: "mem s1 = mem s" by (simp add: s1_def)
  have "0 \<le> t \<and> t < 256 \<and>
        store_ok ext (qk_dst mm_qk) (int (length (ker_qxk K mm_qk (mem s1)))) \<and>
        store_ok ext (av_dst mm_av) (int (length (fst out))) \<and>
        store_ok ext (av_dst_scale mm_av) (int (length (snd out)))"
    using assms(1)
    unfolding attention_block_ok_def Let_def out_def mm_av_def m2_def mm_qk_def s1 .
  then have 1: "store_ok ext (qk_dst mm_qk) (int (length (ker_qxk K mm_qk (mem s1))))"
    and 2: "store_ok ext (av_dst mm_av) (int (length (fst out)))"
    and 3: "store_ok ext (av_dst_scale mm_av) (int (length (snd out)))"
    by simp_all
  have "attention_block K d tmp_mask t ibs i s = s1\<lparr>mem := m4\<rparr>"
    unfolding attention_block_def Let_def m4_def m3_def out_def mm_av_def m2_def mm_qk_def
      s1_def ..
  moreover have "m4 p = m3 p"
    unfolding m4_def using 3 assms(2) by (rule write_bytes_outside)
  moreover have "m3 p = m2 p"
    unfolding m3_def using 2 assms(2) by (rule write_bytes_outside)
  moreover have "m2 p = mem s1 p"
    unfolding m2_def using 1 assms(2) by (rule write_bytes_outside)
  ultimately show ?thesis using s1 by simp
qed

lemma phase2_rows_outside:
  assumes "phase2_rows_ok ext K thr d tmp_mask ibs i s" and "outside ext p"
  shows "mem (phase2_rows K thr d tmp_mask ibs i s) p = mem s p"
  using assms
proof (induction K thr d tmp_mask ibs i s rule: phase2_rows.induct)
  case (1 K thr d tmp_mask ibs i s)
  show ?case
  proof (cases "i < dim_M d")
    case False
    then show ?thesis by (subst phase2_rows.simps) (simp only: if_False)
  next
    case True
    have "(if i < dim_M d then attention_block_ok ext K d tmp_mask (thr ibs i) ibs i s \<and>
        phase2_rows_ok ext K thr d tmp_mask ibs (i + 16)
         (attention_block K d tmp_mask (thr ibs i) ibs i s) else True)"
      using "1.prems"(1) by (subst (asm) phase2_rows_ok.simps)
    then have both: "attention_block_ok ext K d tmp_mask (thr ibs i) ibs i s \<and>
        phase2_rows_ok ext K thr d tmp_mask ibs (i + 16)
         (attention_block K d tmp_mask (thr ibs i) ibs i s)"
      using True by (simp only: if_True)
    have ok: "attention_block_ok ext K d tmp_mask (thr ibs i) ibs i s"
      "phase2_rows_ok ext K thr d tmp_mask ibs (i + 16)
         (attention_block K d tmp_mask (thr ibs i) ibs i s)"
      using both by (rule conjunct1, rule conjunct2)
    have "mem (phase2_rows K thr d tmp_mask ibs i s) p =
        mem (phase2_rows K thr d tmp_mask ibs (i + 16)
          (attention_block K d tmp_mask (thr ibs i) ibs i s)) p"
      using True by (subst phase2_rows.simps) (simp only: if_True)
    also have "\<dots> = mem (attention_block K d tmp_mask (thr ibs i) ibs i s) p"
      using ok(2) "1.prems"(2) by (rule "1.IH" [OF True])
    also have "\<dots> = mem s p"
      using ok(1) "1.prems"(2) by (rule attention_block_outside)
    finally show ?thesis .
  qed
qed

lemma phase2_outside:
  assumes "phase2_ok ext K thr d tmp_mask ibs s" and "outside ext p"
  shows "mem (phase2 K thr d tmp_mask ibs s) p = mem s p"
  using assms
proof (induction K thr d tmp_mask ibs s rule: phase2.induct)
  case (1 K thr d tmp_mask ibs s)
  show ?case
  proof (cases "ibs < batch_size d")
    case False
    then show ?thesis by (subst phase2.simps) (simp only: if_False)
  next
    case True
    have "(if ibs < batch_size d then phase2_rows_ok ext K thr d tmp_mask ibs 0 s \<and>
        phase2_ok ext K thr d tmp_mask (ibs + 1) (phase2_rows K thr d tmp_mask ibs 0 s) else True)"
      using "1.prems"(1) by (subst (asm) phase2_ok.simps)
    then have both: "phase2_rows_ok ext K thr d tmp_mask ibs 0 s \<and>
        phase2_ok ext K thr d tmp_mask (ibs + 1) (phase2_rows K thr d tmp_mask ibs 0 s)"
      using True by (simp only: if_True)
    have ok: "phase2_rows_ok ext K thr d tmp_mask ibs 0 s"
      "phase2_ok ext K thr d tmp_mask (ibs + 1) (phase2_rows K thr d tmp_mask ibs 0 s)"
      using both by (rule conjunct1, rule conjunct2)
    have "mem (phase2 K thr d tmp_mask ibs s) p =
        mem (phase2 K thr d tmp_mask (ibs + 1) (phase2_rows K thr d tmp_mask ibs 0 s)) p"
      using True by (subst phase2.simps) (simp only: if_True)
    also have "\<dots> = mem (phase2_rows K thr d tmp_mask ibs 0 s) p"
      using ok(2) "1.prems"(2) by (rule "1.IH" [OF True])
    also have "\<dots> = mem s p"
      using ok(1) "1.prems"(2) by (rule phase2_rows_outside)
    finally show ?thesis .
  qed
qed

lemma execute_Some:
  assumes "execute ext K thr max_threads k s = Some (r, s')"
  defines "d \<equiv> resolve_dims k (mem s)"
  defines "pm \<equiv> prepare_mask d (phase1 K d 0 (mem s))"
  defines "s2 \<equiv> s\<lparr>mem := snd pm,
      amx_init := (\<lambda>t. if 0 \<le> t \<and> t < max_threads then False else amx_init s t)\<rparr>"
  shows "phase1_ok ext K d 0 (mem s)" and "prepare_mask_ok ext d" and "max_threads \<le> 256"
    and "phase2_ok ext K thr d (fst pm) 0 s2" and "r" and "s' = phase2 K thr d (fst pm) 0 s2"
proof -
  define c where "c \<longleftrightarrow> phase1_ok ext K d 0 (mem s) \<and> prepare_mask_ok ext d \<and>
      max_threads \<le> 256 \<and> phase2_ok ext K thr d (fst pm) 0 s2"
  define x where "x = phase2 K thr d (fst pm) 0 s2"
  have "execute ext K thr max_threads k s = (if c then Some (True, x) else None)"
    unfolding execute_def Let_def c_def x_def s2_def pm_def d_def ..
  with assms(1) have e: "(if c then Some (True, x) else None) = Some (r, s')"
    by simp
  have c: c
  proof (rule ccontr)
    assume "\<not> c"
    with e show False by simp
  qed
  with e have "Some (True, x) = Some (r, s')" by simp
  then have r: "r = True" and s': "s' = x" by simp_all
  show "phase1_ok ext K d 0 (mem s)" and "prepare_mask_ok ext d" and "max_threads \<le> 256"
    and "phase2_ok ext K thr d (fst pm) 0 s2"
    using c unfolding c_def by blast+
  show "r" using r by simp
  show "s' = phase2 K thr d (fst pm) 0 s2" using s' unfolding x_def .
qed

text \<open>
  The checks on the example inputs. With the kernel of fixed dimensions, buffers of the
  sizes of the tensors and a workspace of \<^verbatim>\<open>get_workspace_size()\<close> bytes, every store is
  inside its buffer. With the kernel whose batch size is left to the call, the workspace
  of \<^verbatim>\<open>get_workspace_size()\<close> bytes is too short for the first block of Value scales.
\<close>

lemmas region_defs = tmp_k_def tmp_v_def tmp_v_scale_def tmp_threads_def workspace_def
  ptr_add_def tmp_mask_size_def head_tmp_k_size_def head_tmp_v_size_def
  head_tmp_v_scale_size_def tmp_thread_size_def N_pad4_def N_pad16_def N_pad64_def
  head_size_pad16_def head_size_pad64_def size_trq10n_v_block_def size_pad0_v_block_def
  pad_to_def

lemma static_phase1_ok:
  "phase1_ok (tensor_extents static_dims 25344) ones_kernels static_dims 0 m"
  by (simp add: static_dims_def tensor_extents_def transpose_k_block_ok_def
      transpose_v_block_ok_def store_ok_def Let_def tr_k_data_of_def tr_v_data_of_def
      block_tmp_v_def ones_kernels_def region_defs)

lemma static_mask_ok:
  "prepare_mask_ok (tensor_extents static_dims 25344) static_dims"
  by (simp add: static_dims_def tensor_extents_def prepare_mask_ok_def mask_row_ok_def
      store_ok_def Let_def region_defs)

lemma static_phase2_ok:
  "phase2_ok (tensor_extents static_dims 25344) ones_kernels (\<lambda>ibs i. 0) static_dims q 0 s"
  by (simp add: static_dims_def tensor_extents_def attention_block_ok_def
      store_ok_def Let_def mm_qk_data_of_def mm_av_data_of_def curr_tmp_def dst_def
      dst_scale_def ones_kernels_def region_defs)


lemma resolve_static_kernel: "resolve_dims static_kernel m = static_dims"
  by (simp add: resolve_dims_def static_kernel_def static_dims_def)

lemma resolve_dynamic_batch_kernel:
  "resolve_dims dynamic_batch_kernel batch_2_memory = dynamic_dims"
  by (simp add: resolve_dims_def dynamic_batch_kernel_def batch_2_memory_def load_int32_def
      ptr_add_def dynamic_dims_def)

lemma static_workspace_size: "uint (get_workspace_size static_kernel 1) = 25344"
  by (simp add: get_workspace_size_def static_kernel_def pad_to_def)

lemma dynamic_workspace_size: "uint (get_workspace_size dynamic_batch_kernel 1) = 4096"
  by (simp add: get_workspace_size_def dynamic_batch_kernel_def pad_to_def)

lemma dynamic_phase1_not_ok:
  "\<not> phase1_ok (tensor_extents dynamic_dims 4096) ones_kernels dynamic_dims 0 m"
  by (simp add: dynamic_dims_def tensor_extents_def transpose_k_block_ok_def
      transpose_v_block_ok_def store_ok_def Let_def tr_k_data_of_def tr_v_data_of_def
      block_tmp_v_def ones_kernels_def region_defs)

text \<open>
  C10, as amended. In a call whose behaviour is defined (every store of the micro-kernels,
  which store from their \<^verbatim>\<open>dst\<close> and \<^verbatim>\<open>dst_scale\<close> pointers on, and of \<^verbatim>\<open>execute\<close> itself is
  inside the buffer it is addressed to, and neither line 229 nor a thread goes beyond the
  256 flags of \<^verbatim>\<open>amx_init\<close>), the bytes written are bytes of the Output tensor, of the Output
  scales or of the workspace: every byte of another buffer, and every byte beyond the
  extent of its buffer, is left as it was. In particular the Query, Key, Value, the mask
  (also when \<^verbatim>\<open>tmp_mask\<close> points to it) and the scales of Query, Key and Value are not
  modified.
\<close>

theorem execute_writes_outputs_only:
  assumes "execute ext K thr max_threads k s = Some (r, s')"
    and "fst p \<notin> {DST, DST_SCALE, WORKSPACE} \<or> outside ext p"
  shows "mem s' p = mem s p"
proof -
  define d where "d = resolve_dims k (mem s)"
  define m1 where "m1 = phase1 K d 0 (mem s)"
  define pm where "pm = prepare_mask d m1"
  define s2 where "s2 = s\<lparr>mem := snd pm,
      amx_init := (\<lambda>t. if 0 \<le> t \<and> t < max_threads then False else amx_init s t)\<rparr>"
  note ok = execute_Some [OF assms(1), folded d_def, folded m1_def, folded pm_def,
      folded s2_def]
  have s2: "mem s2 = snd pm" unfolding s2_def by simp
  from assms(2) show ?thesis
  proof
    assume a: "fst p \<notin> {DST, DST_SCALE, WORKSPACE}"
    then have w: "fst p \<noteq> WORKSPACE" by simp
    have "mem s' p = mem (phase2 K thr d (fst pm) 0 s2) p"
      by (simp only: ok(6))
    also have "\<dots> = mem s2 p"
      using a by (rule phase2_other)
    also have "mem s2 p = snd pm p"
      unfolding s2 ..
    also have "snd pm p = m1 p"
      unfolding pm_def using w by (rule prepare_mask_other)
    also have "m1 p = mem s p"
      unfolding m1_def using w by (rule phase1_other)
    finally show ?thesis .
  next
    assume a: "outside ext p"
    have "mem s' p = mem (phase2 K thr d (fst pm) 0 s2) p"
      by (simp only: ok(6))
    also have "\<dots> = mem s2 p"
      using ok(4) a by (rule phase2_outside)
    also have "mem s2 p = snd pm p"
      unfolding s2 ..
    also have "snd pm p = m1 p"
      unfolding pm_def using ok(2) a by (rule prepare_mask_outside)
    also have "m1 p = mem s p"
      unfolding m1_def using ok(1) a by (rule phase1_outside)
    finally show ?thesis .
  qed
qed

theorem execute_writes_outputs_only_witness:
  "\<exists>r s'.
     execute
       (tensor_extents (resolve_dims static_kernel counting_memory)
          (uint (get_workspace_size static_kernel 1)))
       ones_kernels (\<lambda>ibs i. 0) 1 static_kernel
       \<lparr>mem = counting_memory, amx_init = (\<lambda>t. False), tile_cfg = []\<rparr> = Some (r, s') \<and>
     mem s' (BINARY_ADD, 5) = 5 \<and> mem s' (WORKSPACE, 25349) = 5"
proof -
  define E where "E = tensor_extents static_dims 25344"
  define S where "S = \<lparr>mem = counting_memory, amx_init = (\<lambda>t. False), tile_cfg = []\<rparr>"
  define pm where
    "pm = prepare_mask static_dims (phase1 ones_kernels static_dims 0 counting_memory)"
  define s2 where "s2 = S\<lparr>mem := snd pm,
      amx_init := (\<lambda>t. if 0 \<le> t \<and> t < 1 then False else amx_init S t)\<rparr>"
  define s' where "s' = phase2 ones_kernels (\<lambda>ibs i. 0) static_dims (fst pm) 0 s2"
  have S: "mem S = counting_memory" by (simp add: S_def)
  have n: "(1::int) \<le> 256" by simp
  have "execute E ones_kernels (\<lambda>ibs i. 0) 1 static_kernel S =
      (if phase1_ok E ones_kernels static_dims 0 counting_memory \<and> prepare_mask_ok E static_dims \<and>
          (1::int) \<le> 256 \<and> phase2_ok E ones_kernels (\<lambda>ibs i. 0) static_dims (fst pm) 0 s2
       then Some (True, s') else None)"
    unfolding execute_def Let_def S resolve_static_kernel s'_def s2_def pm_def ..
  then have e: "execute E ones_kernels (\<lambda>ibs i. 0) 1 static_kernel S = Some (True, s')"
    unfolding E_def
    by (simp only: static_phase1_ok static_mask_ok static_phase2_ok n simp_thms if_True)
  have "mem s' (BINARY_ADD, 5) = mem S (BINARY_ADD, 5)"
    using execute_writes_outputs_only [OF e, of "(BINARY_ADD, 5)"] by simp
  moreover have "mem s' (WORKSPACE, 25349) = mem S (WORKSPACE, 25349)"
    using execute_writes_outputs_only [OF e, of "(WORKSPACE, 25349)"]
    by (simp add: outside_def E_def tensor_extents_def)
  ultimately have "mem s' (BINARY_ADD, 5) = 5 \<and> mem s' (WORKSPACE, 25349) = 5"
    by (simp add: S counting_memory_def)
  with e show ?thesis
    unfolding E_def S_def resolve_static_kernel [of counting_memory, symmetric]
      static_workspace_size [symmetric]
    by blast
qed

text \<open>
  Not every call is of this kind. For the kernel whose batch size is left to the call and
  resolved to 2, \<^verbatim>\<open>get_workspace_size()\<close> is 4096, and with a workspace of that many bytes
  the scales of the first Value block are stored from byte 10368 of the workspace on,
  beyond its end. And with 300 threads line 229 clears 300 flags of an array of 256.
\<close>

theorem execute_writes_outputs_only_counterexample:
  "uint (get_workspace_size dynamic_batch_kernel 1) = 4096 \<and>
   execute
     (tensor_extents (resolve_dims dynamic_batch_kernel batch_2_memory)
        (uint (get_workspace_size dynamic_batch_kernel 1)))
     ones_kernels (\<lambda>ibs i. 0) 1 dynamic_batch_kernel
     \<lparr>mem = batch_2_memory, amx_init = (\<lambda>t. False), tile_cfg = []\<rparr> = None \<and>
   v_dst_scale (tr_v_data_of (resolve_dims dynamic_batch_kernel batch_2_memory) 0 0 0) =
     (WORKSPACE, 10368) \<and>
   execute
     (tensor_extents (resolve_dims static_kernel counting_memory)
        (uint (get_workspace_size static_kernel 300)))
     ones_kernels (\<lambda>ibs i. 0) 300 static_kernel
     \<lparr>mem = counting_memory, amx_init = (\<lambda>t. False), tile_cfg = []\<rparr> = None"
proof -
  define S where "S = \<lparr>mem = batch_2_memory, amx_init = (\<lambda>t. False), tile_cfg = []\<rparr>"
  have S: "mem S = batch_2_memory" by (simp add: S_def)
  have "execute (tensor_extents dynamic_dims 4096) ones_kernels (\<lambda>ibs i. 0) 1
      dynamic_batch_kernel S = None"
    unfolding execute_def Let_def S resolve_dynamic_batch_kernel
    by (simp only: dynamic_phase1_not_ok simp_thms if_False)
  then have 1: "execute
     (tensor_extents (resolve_dims dynamic_batch_kernel batch_2_memory)
        (uint (get_workspace_size dynamic_batch_kernel 1)))
     ones_kernels (\<lambda>ibs i. 0) 1 dynamic_batch_kernel
     \<lparr>mem = batch_2_memory, amx_init = (\<lambda>t. False), tile_cfg = []\<rparr> = None"
    unfolding S_def resolve_dynamic_batch_kernel dynamic_workspace_size .
  have 2: "v_dst_scale (tr_v_data_of (resolve_dims dynamic_batch_kernel batch_2_memory) 0 0 0) =
     (WORKSPACE, 10368)"
    unfolding resolve_dynamic_batch_kernel
    by (simp add: dynamic_dims_def tr_v_data_of_def Let_def region_defs)
  have n: "\<not> (300::int) \<le> 256" by simp
  have 3: "execute E ones_kernels (\<lambda>ibs i. 0) 300 static_kernel S' = None" for E S'
    unfolding execute_def Let_def by (simp only: n simp_thms if_False)
  show ?thesis
    using dynamic_workspace_size 1 2 3 by blast
qed

subsection \<open>The stores of a call\<close>

text \<open>
  Inside \<^verbatim>\<open>execute\<close>, the rows that the mask preparation copies are those of the mask the
  caller passed: phase 1, which runs before, leaves that buffer alone.
\<close>

lemma execute_mask_rows:
  assumes "0 < dim_N d" "\<not> 16 dvd dim_N d"
    and "0 \<le> ibs" "ibs < batch_size d" "0 \<le> c" "c < dim_N d"
  shows "load_f32 (snd (prepare_mask d (phase1 K d 0 m)))
           (ptr_add 4 workspace (ibs * pad_to (dim_N d) 16 + c)) =
         load_f32 m (ptr_add 4 mask_ptr (ibs * dim_N d + c))"
proof -
  have ne: "dim_N d \<noteq> N_pad16 d"
    using assms(1,2) pad_to_eq_iff [of 16 "dim_N d"] by (auto simp add: N_pad16_def)
  have ge: "dim_N d \<le> N_pad16 d"
    using pad_to_ge [of 16 "dim_N d"] by (simp add: N_pad16_def)
  have keep: "phase1 K d 0 m (BINARY_ADD, x) = m (BINARY_ADD, x)" for x
    by (rule phase1_other) simp
  have "load_f32 (snd (prepare_mask d (phase1 K d 0 m)))
           (ptr_add 4 workspace (ibs * pad_to (dim_N d) 16 + c)) =
        load_f32 (mask_loop d 0 (phase1 K d 0 m)) (ptr_add 4 workspace (ibs * N_pad16 d + c))"
    using ne by (simp add: prepare_mask_def N_pad16_def)
  also have "\<dots> = load_f32 (phase1 K d 0 m) (ptr_add 4 mask_ptr (ibs * dim_N d + c))"
    using mask_loop_float [of ibs d c "phase1 K d 0 m"] assms ge by simp
  also have "\<dots> = load_f32 m (ptr_add 4 mask_ptr (ibs * dim_N d + c))"
    unfolding load_f32_eq mask_ptr_def ptr_add_def fst_conv snd_conv by (simp only: keep)
  finally show ?thesis .
qed

text \<open>
  The stores that \<^verbatim>\<open>execute\<close> itself makes stay inside the region they belong to: a row of
  the padded mask inside the first region, the zero fill of a Value block inside the
  region of the Value buffers, the scratch of a thread inside the last region.
\<close>

lemma mask_row_in_region:
  assumes "0 \<le> ibs" "ibs < batch_size d" "0 < dim_N d"
  shows "snd workspace \<le> snd (ptr_add 4 workspace (ibs * N_pad16 d))"
    and "snd (ptr_add 4 workspace (ibs * N_pad16 d)) + 4 * N_pad16 d \<le> snd (tmp_k d)"
proof -
  have P: "0 \<le> N_pad16 d" using assms(3) by (simp add: N_pad16_def pad_to_nonneg)
  show "snd workspace \<le> snd (ptr_add 4 workspace (ibs * N_pad16 d))"
    using assms(1) P by simp
  have "(ibs + 1) * N_pad16 d \<le> batch_size d * N_pad16 d"
    using assms(2) P by (intro mult_right_mono) auto
  then show "snd (ptr_add 4 workspace (ibs * N_pad16 d)) + 4 * N_pad16 d \<le> snd (tmp_k d)"
    by (simp add: tmp_k_def tmp_mask_size_def algebra_simps)
qed

lemma value_block_in_region:
  assumes "0 < head_size d" "0 < dim_N d"
    and "0 \<le> ibs" "ibs < batch_size d" "0 \<le> ihn" "ihn < head_num d"
    and "0 \<le> j" "j < head_size d" "16 dvd j"
  shows "snd (tmp_v d) \<le> snd (block_tmp_v d ibs ihn j)"
    and "snd (block_tmp_v d ibs ihn j) + 16 * N_pad64 d \<le> snd (tmp_v_scale d)"
proof -
  define i where "i = ibs * head_num d + ihn"
  have i: "0 \<le> i" "i + 1 \<le> batch_size d * head_num d"
    using pair_index_bound [OF assms(3-6)] by (simp_all add: i_def)
  have P: "0 \<le> N_pad64 d" using assms(2) by (simp add: N_pad64_def pad_to_nonneg)
  have S: "0 \<le> head_size_pad16 d" using assms(1) by (simp add: head_size_pad16_def pad_to_nonneg)
  have V: "0 \<le> head_tmp_v_size d" using P S by (simp add: head_tmp_v_size_def)
  show "snd (tmp_v d) \<le> snd (block_tmp_v d ibs ihn j)"
    using i(1) V assms(7) P by (simp add: snd_block_tmp_v i_def)
  have "snd (block_tmp_v d ibs ihn j) + 16 * N_pad64 d =
      snd (tmp_v d) + i * head_tmp_v_size d + (j + 16) * N_pad64 d"
    by (simp add: snd_block_tmp_v i_def algebra_simps)
  also have "\<dots> \<le> snd (tmp_v d) + i * head_tmp_v_size d + head_tmp_v_size d"
    using block_end_in_head [OF assms(7-9) P] by simp
  also have "\<dots> = snd (tmp_v d) + (i + 1) * head_tmp_v_size d"
    by (simp add: algebra_simps)
  also have "\<dots> \<le> snd (tmp_v d) + (batch_size d * head_num d) * head_tmp_v_size d"
    using i(2) V by (simp add: mult_right_mono)
  also have "\<dots> = snd (tmp_v_scale d)"
    by (simp add: tmp_v_scale_def)
  finally show "snd (block_tmp_v d ibs ihn j) + 16 * N_pad64 d \<le> snd (tmp_v_scale d)" .
qed

lemma thread_scratch_in_region:
  assumes "0 \<le> t" "t < max_threads" "0 < head_num d" "0 < dim_N d"
  shows "snd (tmp_threads d) \<le> snd (curr_tmp d t)"
    and "snd (curr_tmp d t) + tmp_thread_size d \<le> snd (tmp_end d max_threads)"
proof -
  have T: "0 \<le> tmp_thread_size d"
    using assms(3,4) by (simp add: tmp_thread_size_def N_pad64_def pad_to_nonneg)
  show "snd (tmp_threads d) \<le> snd (curr_tmp d t)"
    using assms(1) T by (simp add: curr_tmp_def)
  have "(t + 1) * tmp_thread_size d \<le> max_threads * tmp_thread_size d"
    using assms(2) T by (intro mult_right_mono) auto
  then show "snd (curr_tmp d t) + tmp_thread_size d \<le> snd (tmp_end d max_threads)"
    by (simp add: curr_tmp_def tmp_end_def algebra_simps)
qed

end
